theory Spec2Isabelle
  imports Complex_Main
begin

section \<open>Data model: the tables of the shop database\<close>

text \<open>
  The tables are those of the schema script (\<^verbatim>\<open>CREATE TABLE wallets / transactions / orders /
  product_stocks / topup_requests\<close>). Columns of type \<^verbatim>\<open>DECIMAL\<close> and JavaScript numbers are
  exact rationals here; the scale-2 rounding and the 12-digit range of \<^verbatim>\<open>DECIMAL(12,2)\<close> and
  the rounding of IEEE doubles are not modelled. Timestamps are natural numbers. Executions
  are sequential: one request is served at a time, so \<^verbatim>\<open>FOR UPDATE\<close> and
  \<^verbatim>\<open>SKIP LOCKED\<close> never find a row locked by somebody else.
\<close>

type_synonym uuid = nat
type_synonym timestamp = nat

text \<open>A JSON value of a \<^verbatim>\<open>jsonb\<close> column, as far as the code builds one.\<close>

datatype jval = JStr string | JInt int | JNum rat | JNull

record product_stock =
  stock_id :: uuid
  stock_product_id :: string
  stock_data :: string
  is_sold :: bool
  sold_to :: "string option"
  sold_at :: "timestamp option"
  stock_order_id :: "string option"
  stock_created_at :: timestamp

record order_row =
  order_id :: string
  order_user_id :: string
  order_product_id :: string
  order_product_name :: string
  order_quantity :: int
  order_price :: rat
  order_total :: rat
  order_status :: string
  order_delivery_items :: "string list"
  order_delivered_at :: timestamp

record transaction_row =
  transaction_id :: string
  txn_user_id :: string
  txn_type :: string
  txn_amount :: rat
  txn_balance_after :: rat
  txn_details :: "(string \<times> jval) list"

record topup_request =
  request_id :: string
  req_user_id :: string
  req_amount :: rat
  req_method :: string
  req_slip_url :: "string option"
  req_status :: string
  req_admin_note :: "string option"
  req_reviewed_by :: "string option"
  req_reviewed_at :: "timestamp option"

text \<open>
  \<^verbatim>\<open>wallets.user_id\<close> is \<^verbatim>\<open>UNIQUE NOT NULL\<close>, so the table is a map from the user id;
  \<^verbatim>\<open>wallets.balance\<close> is nullable, so a row holds \<open>None\<close> for SQL \<^verbatim>\<open>NULL\<close>. The other tables
  are lists in insertion (commit) order.
\<close>

record db =
  wallets :: "string \<rightharpoonup> rat option"
  transactions :: "transaction_row list"
  product_stocks :: "product_stock list"
  orders :: "order_row list"
  topup_requests :: "topup_request list"

definition empty_db :: db where
  "empty_db = \<lparr>wallets = Map.empty, transactions = [], product_stocks = [], orders = [],
                topup_requests = []\<rparr>"

text \<open>\<^verbatim>\<open>SELECT balance FROM wallets WHERE user_id = u\<close>: \<open>None\<close> when there is no row or
  the balance is \<^verbatim>\<open>NULL\<close>.\<close>

definition wallet_balance :: "db \<Rightarrow> string \<Rightarrow> rat option" where
  "wallet_balance d u = (case wallets d u of None \<Rightarrow> None | Some b \<Rightarrow> b)"

subsection \<open>Decimal text of a number (\<^verbatim>\<open>::TEXT\<close>, template literals)\<close>

definition digit_char :: "nat \<Rightarrow> char" where
  "digit_char n = ''0123456789'' ! n"

function show_nat :: "nat \<Rightarrow> string" where
  "show_nat n = (if n < 10 then [digit_char n] else show_nat (n div 10) @ [digit_char (n mod 10)])"
  by pat_completeness auto
termination
  by (relation "measure (\<lambda>n. n)") auto

declare show_nat.simps [simp del]

section \<open>The stored procedures (stock locking functions)\<close>

text \<open>
  Errors a procedure can end with. The first three are the \<^verbatim>\<open>RAISE EXCEPTION\<close> statements of
  the source; \<open>INVALID_ROW_COUNT_IN_LIMIT\<close> is PostgreSQL's error for a negative \<^verbatim>\<open>LIMIT\<close>, and
  \<open>UNIQUE_VIOLATION\<close> the one of an \<^verbatim>\<open>INSERT\<close> that repeats a \<^verbatim>\<open>UNIQUE\<close> column
  (\<^verbatim>\<open>orders.order_id\<close>, \<^verbatim>\<open>transactions.transaction_id\<close>).
\<close>

datatype pg_error =
    WALLET_NOT_FOUND string
  | INSUFFICIENT_BALANCE rat rat
  | INSUFFICIENT_STOCK int int
  | INVALID_ROW_COUNT_IN_LIMIT
  | UNIQUE_VIOLATION string

text \<open>
  The query both procedures run:
  \<^verbatim>\<open>SELECT id, stock_data FROM product_stocks WHERE product_id = p AND is_sold = false
  ORDER BY created_at ASC LIMIT q FOR UPDATE SKIP LOCKED\<close>, for \<open>q \<ge> 0\<close>.
  Rows with equal \<^verbatim>\<open>created_at\<close> keep their table order (SQL leaves their order open).
\<close>

definition unsold_of :: "db \<Rightarrow> string \<Rightarrow> product_stock list" where
  "unsold_of d p = filter (\<lambda>s. stock_product_id s = p \<and> \<not> is_sold s) (product_stocks d)"

definition select_unsold :: "db \<Rightarrow> string \<Rightarrow> int \<Rightarrow> product_stock list" where
  "select_unsold d p q = take (nat q) (sort_key stock_created_at (unsold_of d p))"

text \<open>\<^verbatim>\<open>get_available_stock_count\<close>.\<close>

definition get_available_stock_count :: "db \<Rightarrow> string \<Rightarrow> int" where
  "get_available_stock_count d p = int (length (unsold_of d p))"

text \<open>
  \<^verbatim>\<open>reserve_stock(p_product_id, p_quantity, p_user_id)\<close>: returns the selected rows, or raises
  when the loop counted fewer than \<^verbatim>\<open>p_quantity\<close>. It writes nothing.
\<close>

definition reserve_stock :: "db \<Rightarrow> string \<Rightarrow> int \<Rightarrow> string \<Rightarrow> pg_error + (uuid \<times> string) list" where
  "reserve_stock d p_product_id p_quantity p_user_id =
     (if p_quantity < 0 then Inl INVALID_ROW_COUNT_IN_LIMIT
      else let v_stock = select_unsold d p_product_id p_quantity;
               v_count = int (length v_stock)
           in if v_count < p_quantity then Inl (INSUFFICIENT_STOCK v_count p_quantity)
              else Inr (map (\<lambda>s. (stock_id s, stock_data s)) v_stock))"

record purchase_result =
  res_orderId :: string
  res_transactionId :: string
  res_deliveryItems :: "string list"
  res_total :: rat
  res_newBalance :: rat

text \<open>Step 4 of \<^verbatim>\<open>complete_purchase\<close>:
  \<^verbatim>\<open>UPDATE product_stocks SET is_sold = true, sold_to = .., sold_at = NOW(), order_id = ..
  WHERE id = ANY(v_stock_ids)\<close>.\<close>

definition mark_sold :: "uuid list \<Rightarrow> string \<Rightarrow> timestamp \<Rightarrow> string \<Rightarrow> product_stock \<Rightarrow> product_stock" where
  "mark_sold ids u t oid s =
     (if stock_id s \<in> set ids
      then s\<lparr>is_sold := True, sold_to := Some u, sold_at := Some t, stock_order_id := Some oid\<rparr>
      else s)"

text \<open>
  \<^verbatim>\<open>complete_purchase\<close>. The second component of the result is the database as the
  statements executed so far have left it: where the procedure raises, it is the state at
  the \<^verbatim>\<open>RAISE\<close>, before PostgreSQL rolls the transaction back. \<open>now\<close> is
  \<^verbatim>\<open>EXTRACT(EPOCH FROM NOW())::BIGINT\<close>.
\<close>

definition complete_purchase ::
  "timestamp \<Rightarrow> string \<Rightarrow> string \<Rightarrow> int \<Rightarrow> rat \<Rightarrow> string \<Rightarrow> db \<Rightarrow> (pg_error + purchase_result) \<times> db" where
  "complete_purchase now p_user_id p_product_id p_quantity p_price_per_unit p_product_name d =
     (let v_total = p_price_per_unit * of_int p_quantity;
          v_order_id = ''ORD'' @ show_nat now;
          v_transaction_id = ''TXN'' @ show_nat now
      in case wallet_balance d p_user_id of
           None \<Rightarrow> (Inl (WALLET_NOT_FOUND p_user_id), d)
         | Some v_current_balance \<Rightarrow>
             if v_current_balance < v_total
             then (Inl (INSUFFICIENT_BALANCE v_current_balance v_total), d)
             else if p_quantity < 0 then (Inl INVALID_ROW_COUNT_IN_LIMIT, d)
             else
               let v_stock = select_unsold d p_product_id p_quantity;
                   v_stock_ids = map stock_id v_stock;
                   v_stock_data = map stock_data v_stock
               in if v_stock_ids = [] \<or> int (length v_stock_ids) < p_quantity
                  then (Inl (INSUFFICIENT_STOCK (int (length v_stock_ids)) p_quantity), d)
                  else
                    let v_new_balance = v_current_balance - v_total;
                        d1 = d\<lparr>wallets := (wallets d)(p_user_id \<mapsto> Some v_new_balance)\<rparr>;
                        d2 = d1\<lparr>product_stocks :=
                                 map (mark_sold v_stock_ids p_user_id now v_order_id) (product_stocks d1)\<rparr>
                    in if v_order_id \<in> set (map order_id (orders d2))
                       then (Inl (UNIQUE_VIOLATION ''orders_order_id_key''), d2)
                       else
                         let d3 = d2\<lparr>orders := orders d2 @
                                    [\<lparr>order_id = v_order_id, order_user_id = p_user_id,
                                      order_product_id = p_product_id,
                                      order_product_name = p_product_name,
                                      order_quantity = p_quantity, order_price = p_price_per_unit,
                                      order_total = v_total, order_status = ''completed'',
                                      order_delivery_items = v_stock_data,
                                      order_delivered_at = now\<rparr>]\<rparr>
                         in if v_transaction_id \<in> set (map transaction_id (transactions d3))
                            then (Inl (UNIQUE_VIOLATION ''transactions_transaction_id_key''), d3)
                            else
                              (Inr \<lparr>res_orderId = v_order_id, res_transactionId = v_transaction_id,
                                    res_deliveryItems = v_stock_data, res_total = v_total,
                                    res_newBalance = v_new_balance\<rparr>,
                               d3\<lparr>transactions := transactions d3 @
                                    [\<lparr>transaction_id = v_transaction_id, txn_user_id = p_user_id,
                                      txn_type = ''purchase'', txn_amount = - v_total,
                                      txn_balance_after = v_new_balance,
                                      txn_details = [(''productId'', JStr p_product_id),
                                                 (''productName'', JStr p_product_name),
                                                 (''orderId'', JStr v_order_id),
                                                 (''quantity'', JInt p_quantity)]\<rparr>]\<rparr>))"

text \<open>
  The call \<^verbatim>\<open>supabaseAdmin.rpc('complete_purchase', ..)\<close> as the caller sees it: one
  transaction, so an error leaves the database as it was.
\<close>

definition rpc_complete_purchase ::
  "timestamp \<Rightarrow> string \<Rightarrow> string \<Rightarrow> int \<Rightarrow> rat \<Rightarrow> string \<Rightarrow> db \<Rightarrow> (pg_error + purchase_result) \<times> db" where
  "rpc_complete_purchase now u p q ppu pname d =
     (case complete_purchase now u p q ppu pname d of
        (Inl e, _) \<Rightarrow> (Inl e, d)
      | (Inr r, d') \<Rightarrow> (Inr r, d'))"

text \<open>The three business-rule failures of the purchase.\<close>

fun business_failure :: "pg_error \<Rightarrow> bool" where
  "business_failure (WALLET_NOT_FOUND _) = True"
| "business_failure (INSUFFICIENT_BALANCE _ _) = True"
| "business_failure (INSUFFICIENT_STOCK _ _) = True"
| "business_failure _ = False"

text \<open>Rows that refer to an order id.\<close>

definition txn_references :: "string \<Rightarrow> transaction_row \<Rightarrow> bool" where
  "txn_references oid t = (map_of (txn_details t) ''orderId'' = Some (JStr oid))"

section \<open>The server: values of a request body\<close>

text \<open>
  A JavaScript number is a rational or \<^verbatim>\<open>NaN\<close> (\<open>None\<close>); infinities are left out.
  A value of the request body (JSON or URL-encoded, so a number, a string, a boolean, ...)
  is represented by the three coercions the handlers apply to it:
  \<^verbatim>\<open>!!v\<close>, \<^verbatim>\<open>Number(v)\<close> (what \<^verbatim>\<open>isNaN\<close>, \<^verbatim>\<open><=\<close> and \<^verbatim>\<open><\<close> against a number use) and
  \<^verbatim>\<open>parseFloat(v)\<close>. For the JSON number \<^verbatim>\<open>30\<close> and the string \<^verbatim>\<open>"30"\<close> all three agree
  (\<open>js_num 30\<close>); for the string \<^verbatim>\<open>"-5abc"\<close>, \<^verbatim>\<open>Number\<close> is \<^verbatim>\<open>NaN\<close> and \<^verbatim>\<open>parseFloat\<close>
  is \<open>-5\<close>; for \<^verbatim>\<open>true\<close>, \<^verbatim>\<open>Number\<close> is \<open>1\<close> and \<^verbatim>\<open>parseFloat\<close> is \<^verbatim>\<open>NaN\<close>.
\<close>

type_synonym js_number = "rat option"

record js_value =
  truthy :: bool
  to_number :: js_number
  parse_float :: js_number

definition js_num :: "rat \<Rightarrow> js_value" where
  "js_num x = \<lparr>truthy = (x \<noteq> 0), to_number = Some x, parse_float = Some x\<rparr>"

definition js_undefined :: js_value where
  "js_undefined = \<lparr>truthy = False, to_number = None, parse_float = None\<rparr>"

text \<open>
  \<^verbatim>\<open>Number(v)\<close> and \<^verbatim>\<open>parseFloat(v)\<close> read the same text, so the two coercions of a value
  are related: when \<^verbatim>\<open>Number(v)\<close> is a number, \<^verbatim>\<open>parseFloat(v)\<close> is that number, or \<open>0\<close> (the
  literals \<^verbatim>\<open>0x..\<close>, \<^verbatim>\<open>0o..\<close>, \<^verbatim>\<open>0b..\<close>, of which \<^verbatim>\<open>parseFloat\<close> reads the leading zero), or
  \<^verbatim>\<open>NaN\<close> (\<^verbatim>\<open>true\<close>, and \<^verbatim>\<open>false\<close>, \<^verbatim>\<open>null\<close> and the blank string, which \<^verbatim>\<open>Number\<close> reads as
  \<open>0\<close>). When \<^verbatim>\<open>Number(v)\<close> is \<^verbatim>\<open>NaN\<close>, \<^verbatim>\<open>parseFloat(v)\<close> can be any number: it reads the longest
  numeric prefix of the text. \<open>request_value\<close> holds of the values a request can carry.
\<close>

definition request_value :: "js_value \<Rightarrow> bool" where
  "request_value v =
     (case to_number v of
        None \<Rightarrow> True
      | Some n \<Rightarrow> parse_float v = Some n \<or> parse_float v = Some 0 \<or> parse_float v = None)"

text \<open>The string \<^verbatim>\<open>"-5abc"\<close>: truthy, \<^verbatim>\<open>Number\<close> gives \<^verbatim>\<open>NaN\<close>, \<^verbatim>\<open>parseFloat\<close> gives \<open>-5\<close>.\<close>

definition minus_5abc :: js_value where
  "minus_5abc = \<lparr>truthy = True, to_number = None, parse_float = Some (- 5)\<rparr>"

fun js_le :: "js_number \<Rightarrow> js_number \<Rightarrow> bool" where
  "js_le (Some a) (Some b) = (a \<le> b)"
| "js_le _ _ = False"

fun js_lt :: "js_number \<Rightarrow> js_number \<Rightarrow> bool" where
  "js_lt (Some a) (Some b) = (a < b)"
| "js_lt _ _ = False"

fun js_add :: "js_number \<Rightarrow> js_number \<Rightarrow> js_number" where
  "js_add (Some a) (Some b) = Some (a + b)"
| "js_add _ _ = None"

fun js_sub :: "js_number \<Rightarrow> js_number \<Rightarrow> js_number" where
  "js_sub (Some a) (Some b) = Some (a - b)"
| "js_sub _ _ = None"

fun js_neg :: "js_number \<Rightarrow> js_number" where
  "js_neg (Some a) = Some (- a)"
| "js_neg None = None"

text \<open>A number inside a JSON document: \<^verbatim>\<open>JSON.stringify(NaN)\<close> is \<^verbatim>\<open>null\<close>.\<close>

fun json_number :: "js_number \<Rightarrow> jval" where
  "json_number (Some a) = JNum a"
| "json_number None = JNull"

section \<open>The server: database helpers\<close>

text \<open>
  Every \<^verbatim>\<open>await supabaseAdmin.from(..)\<close> call returns \<^verbatim>\<open>{ data, error }\<close>. Whether the
  storage layer answers a call with an error is not decided by the program, so it is an
  input: a schedule with one entry per call in program order, \<open>True\<close> for "this call
  returns an error and changes nothing"; calls beyond the end of the schedule succeed.
  \<open>[]\<close> is the run in which the storage never fails.
\<close>

type_synonym faults = "bool list"

fun db_call_ok :: "faults \<Rightarrow> bool \<times> faults" where
  "db_call_ok [] = (True, [])"
| "db_call_ok (failed # fs) = (\<not> failed, fs)"

text \<open>
  \<^verbatim>\<open>getOrCreateWallet(userId)\<close>; the result is the \<^verbatim>\<open>balance\<close> field of the wallet object
  returned (\<open>None\<close> for \<^verbatim>\<open>null\<close>). A failed select or insert is caught and answered with
  \<^verbatim>\<open>{ user_id, balance: 0 }\<close>.
\<close>

definition getOrCreateWallet :: "string \<Rightarrow> db \<Rightarrow> faults \<Rightarrow> rat option \<times> db \<times> faults" where
  "getOrCreateWallet userId d fs =
     (let (ok, fs1) = db_call_ok fs
      in if \<not> ok then (Some 0, d, fs1)
         else case wallets d userId of
                Some b \<Rightarrow> (b, d, fs1)
              | None \<Rightarrow>
                  (let (created, fs2) = db_call_ok fs1
                   in if \<not> created then (Some 0, d, fs2)
                      else (Some 0, d\<lparr>wallets := (wallets d)(userId \<mapsto> Some 0)\<rparr>, fs2)))"

text \<open>\<^verbatim>\<open>getUserBalance(userId)\<close>: \<^verbatim>\<open>parseFloat(wallet.balance) || 0\<close>.\<close>

definition getUserBalance :: "string \<Rightarrow> db \<Rightarrow> faults \<Rightarrow> rat \<times> db \<times> faults" where
  "getUserBalance userId d fs =
     (let (bal, d1, fs1) = getOrCreateWallet userId d fs
      in (case bal of None \<Rightarrow> 0 | Some b \<Rightarrow> b, d1, fs1))"

text \<open>
  \<^verbatim>\<open>updateUserBalance(userId, newBalance)\<close>: an upsert on \<^verbatim>\<open>user_id\<close>. A \<^verbatim>\<open>NaN\<close> balance
  is sent as \<^verbatim>\<open>null\<close> and stored as \<^verbatim>\<open>NULL\<close>. An error of the upsert is caught and logged;
  the callers ignore the returned number. The number is stored as sent: the column is
  \<^verbatim>\<open>DECIMAL(12,2)\<close>, so this is what the code stores for a number of at most two decimals
  below \<^verbatim>\<open>10^10\<close> in absolute value; the rounding of other numbers to two decimals and
  the refusal of larger ones are not modelled.
\<close>

definition updateUserBalance :: "string \<Rightarrow> js_number \<Rightarrow> db \<Rightarrow> faults \<Rightarrow> db \<times> faults" where
  "updateUserBalance userId newBalance d fs =
     (let (ok, fs1) = db_call_ok fs
      in if \<not> ok then (d, fs1)
         else (d\<lparr>wallets := (wallets d)(userId \<mapsto> newBalance)\<rparr>, fs1))"

text \<open>
  \<^verbatim>\<open>addTransaction(userId, type, amount, details)\<close> at \<^verbatim>\<open>Date.now() = now\<close>. The insert is
  refused by the table when \<^verbatim>\<open>amount\<close> is \<^verbatim>\<open>null\<close> (\<^verbatim>\<open>NOT NULL\<close>), when the type is not one
  of the \<^verbatim>\<open>CHECK\<close> list, or when the id is taken (\<^verbatim>\<open>UNIQUE\<close>); every error is caught and
  answered with \<^verbatim>\<open>null\<close>. As for the balance, \<^verbatim>\<open>amount\<close> and \<^verbatim>\<open>balance_after\<close> are stored as
  sent, which is what the \<^verbatim>\<open>DECIMAL(12,2)\<close> columns do for numbers of at most two decimals
  below \<^verbatim>\<open>10^10\<close>.
\<close>

definition addTransaction ::
  "string \<Rightarrow> string \<Rightarrow> js_number \<Rightarrow> (string \<times> jval) list \<Rightarrow> timestamp \<Rightarrow> db \<Rightarrow> faults
     \<Rightarrow> transaction_row option \<times> db \<times> faults" where
  "addTransaction userId type amount details now d fs =
     (let (balanceAfter, d1, fs1) = getUserBalance userId d fs;
          (ok, fs2) = db_call_ok fs1
      in if \<not> ok then (None, d1, fs2)
         else case amount of
                None \<Rightarrow> (None, d1, fs2)
              | Some a \<Rightarrow>
                  if type \<notin> set [''topup'', ''purchase'', ''refund''] then (None, d1, fs2)
                  else if ''TXN'' @ show_nat now \<in> set (map transaction_id (transactions d1))
                  then (None, d1, fs2)
                  else
                    (let t = \<lparr>transaction_id = ''TXN'' @ show_nat now, txn_user_id = userId,
                                txn_type = type, txn_amount = a, txn_balance_after = balanceAfter,
                                txn_details = details\<rparr>
                     in (Some t, d1\<lparr>transactions := transactions d1 @ [t]\<rparr>, fs2)))"

text \<open>\<^verbatim>\<open>markStockAsSold(stockIds, userId, orderId)\<close> at time \<open>now\<close>: one unconditional
  update of the rows whose id is listed.\<close>

definition markStockAsSold ::
  "uuid list \<Rightarrow> string \<Rightarrow> string \<Rightarrow> timestamp \<Rightarrow> db \<Rightarrow> faults \<Rightarrow> bool \<times> db \<times> faults" where
  "markStockAsSold stockIds userId orderId now d fs =
     (let (ok, fs1) = db_call_ok fs
      in if \<not> ok then (False, d, fs1)
         else (True,
               d\<lparr>product_stocks := map (mark_sold stockIds userId now orderId) (product_stocks d)\<rparr>,
               fs1))"

section \<open>The server: wallet routes\<close>

text \<open>\<^verbatim>\<open>POST /api/wallet/deduct\<close>, for the session user \<open>userId\<close>.\<close>

datatype deduct_response =
    InvalidAmount
  | BalanceTooLow rat
  | Deducted js_number "transaction_row option"

definition wallet_deduct ::
  "timestamp \<Rightarrow> string \<Rightarrow> js_value \<Rightarrow> jval \<Rightarrow> jval \<Rightarrow> db \<Rightarrow> faults \<Rightarrow> deduct_response \<times> db" where
  "wallet_deduct now userId amount productId productName d fs =
     (if \<not> truthy amount \<or> to_number amount = None \<or> js_le (to_number amount) (Some 0)
      then (InvalidAmount, d)
      else
        let (currentBalance, d1, fs1) = getUserBalance userId d fs
        in if js_lt (Some currentBalance) (to_number amount) then (BalanceTooLow currentBalance, d1)
           else
             let newBalance = js_sub (Some currentBalance) (parse_float amount);
                 (d2, fs2) = updateUserBalance userId newBalance d1 fs1;
                 (txn, d3, fs3) = addTransaction userId ''purchase'' (js_neg (parse_float amount))
                                    [(''productId'', productId), (''productName'', productName)]
                                    now d2 fs2
             in (Deducted newBalance txn, d3))"

text \<open>\<^verbatim>\<open>POST /api/admin/topup\<close>, called by the admin \<open>adminId\<close>. The guard is
  \<^verbatim>\<open>!userId || !amount || amount <= 0\<close>; there is no \<^verbatim>\<open>isNaN\<close> test here.\<close>

datatype topup_response =
    InvalidData
  | ToppedUp js_number

definition admin_topup ::
  "timestamp \<Rightarrow> string \<Rightarrow> string \<Rightarrow> js_value \<Rightarrow> string \<Rightarrow> db \<Rightarrow> faults \<Rightarrow> topup_response \<times> db" where
  "admin_topup now adminId userId amount note d fs =
     (if userId = [] \<or> \<not> truthy amount \<or> js_le (to_number amount) (Some 0) then (InvalidData, d)
      else
        let (w, d1, fs1) = getOrCreateWallet userId d fs;
            (currentBalance, d2, fs2) = getUserBalance userId d1 fs1;
            newBalance = js_add (Some currentBalance) (parse_float amount);
            (d3, fs3) = updateUserBalance userId newBalance d2 fs2;
            (txn, d4, fs4) = addTransaction userId ''topup'' (parse_float amount)
                               [(''method'', JStr ''admin''),
                                (''note'', JStr (if note = [] then ''Admin topup'' else note)),
                                (''adminId'', JStr adminId)]
                               now d3 fs3
        in (ToppedUp newBalance, d4))"

text \<open>
  \<^verbatim>\<open>POST /api/admin/topup-requests/:requestId/approve\<close>. \<^verbatim>\<open>.single()\<close> answers with an error
  unless exactly one row matches. The two default notes of the source (the one stored in
  \<^verbatim>\<open>admin_note\<close> and the one of the transaction details) are Thai literals, written
  \<open>default_note\<close> and \<open>default_txn_note\<close> here.
\<close>

datatype approve_response =
    NotPending
  | AmountRequired
  | ApproveFailed
  | Approved rat

definition default_note :: string where
  "default_note = ''approved''"

definition default_txn_note :: string where
  "default_txn_note = ''approved by Admin''"

definition approve_row :: "string \<Rightarrow> string \<Rightarrow> rat \<Rightarrow> string \<Rightarrow> timestamp \<Rightarrow> topup_request \<Rightarrow> topup_request" where
  "approve_row requestId adminId a note now r =
     (if request_id r = requestId
      then r\<lparr>req_status := ''approved'', req_amount := a,
             req_admin_note := Some (if note = [] then default_note else note),
             req_reviewed_by := Some adminId, req_reviewed_at := Some now\<rparr>
      else r)"

text \<open>The second half of the handler, after the request row has been updated: credit the
  wallet of the request's account and record the transaction.\<close>

definition credit_request ::
  "timestamp \<Rightarrow> string \<Rightarrow> string \<Rightarrow> string \<Rightarrow> topup_request \<Rightarrow> rat \<Rightarrow> db \<Rightarrow> faults
     \<Rightarrow> approve_response \<times> db" where
  "credit_request now requestId adminId note request a d1 fs2 =
     (let userId = req_user_id request;
          (w, d2, fs3) = getOrCreateWallet userId d1 fs2;
          (currentBalance, d3, fs4) = getUserBalance userId d2 fs3;
          newBalance = currentBalance + a;
          (d4, fs5) = updateUserBalance userId (Some newBalance) d3 fs4;
          (txn, d5, fs6) = addTransaction userId ''topup'' (Some a)
                             [(''method'', JStr (req_method request)),
                              (''requestId'', JStr requestId),
                              (''approvedBy'', JStr adminId),
                              (''note'', JStr (if note = [] then default_txn_note else note))]
                             now d4 fs5
      in (Approved newBalance, d5))"

definition approve_topup ::
  "timestamp \<Rightarrow> string \<Rightarrow> string \<Rightarrow> string \<Rightarrow> js_value \<Rightarrow> db \<Rightarrow> faults \<Rightarrow> approve_response \<times> db" where
  "approve_topup now requestId adminId note bodyAmount d fs =
     (let (fetched, fs1) = db_call_ok fs
      in if \<not> fetched then (NotPending, d)
         else
           case filter (\<lambda>r. request_id r = requestId \<and> req_status r = ''pending'') (topup_requests d) of
             [request] \<Rightarrow>
               (let amount = (if truthy bodyAmount then parse_float bodyAmount
                              else Some (req_amount request))
                in case amount of
                     None \<Rightarrow> (AmountRequired, d)
                   | Some a \<Rightarrow>
                       if a = 0 \<or> a \<le> 0 then (AmountRequired, d)
                       else
                         let (updated, fs2) = db_call_ok fs1
                         in if \<not> updated then (ApproveFailed, d)
                            else credit_request now requestId adminId note request a
                                   (d\<lparr>topup_requests :=
                                        map (approve_row requestId adminId a note now)
                                            (topup_requests d)\<rparr>)
                                   fs2)
           | _ \<Rightarrow> (NotPending, d))"

section \<open>The server: the purchase route\<close>

text \<open>
  \<^verbatim>\<open>POST /api/products/:id/purchase\<close> for a request that has passed \<^verbatim>\<open>requireAuth\<close> and the
  rate limiter. \<^verbatim>\<open>req.body.quantity\<close> is absent, or a value that is not an array and whose
  text is an integer literal (the number \<^verbatim>\<open>5\<close>, the string \<^verbatim>\<open>"5"\<close>), or any other value that is
  not an array, for which \<^verbatim>\<open>parseInt\<close> gives the number carried (\<open>None\<close> for \<^verbatim>\<open>NaN\<close>), or an
  array. The elements of an array are taken not to be arrays themselves: each is again a
  value whose text is an integer literal, or another value with its \<^verbatim>\<open>parseInt\<close>.
\<close>

datatype array_item = IntItem int | OtherItem "int option"

datatype body_quantity = Absent | IntText int | NotInt "int option" | Items "array_item list"

text \<open>What \<^verbatim>\<open>getProductById\<close> answers (the catalog is outside this development):
  the name, \<^verbatim>\<open>parseFloat(product.price)\<close> and \<^verbatim>\<open>is_active\<close>.\<close>

record product =
  prod_name :: string
  prod_price :: js_number
  prod_is_active :: bool

datatype purchase_response =
    ValidationFailed
  | QuantityOutOfRange
  | ProductNotFound
  | ProductInactive
  | InvalidPrice
  | OutOfStock int int
  | InsufficientFunds rat rat
  | WalletNotFound
  | PurchaseFailed
  | Purchased purchase_result

definition purchase_status :: "purchase_response \<Rightarrow> nat" where
  "purchase_status r =
     (case r of ProductNotFound \<Rightarrow> 404 | PurchaseFailed \<Rightarrow> 500 | Purchased _ \<Rightarrow> 200 | _ \<Rightarrow> 400)"

text \<open>
  The sanitizer \<^verbatim>\<open>trim()\<close> removes the characters matching \<^verbatim>\<open>\s\<close> from both ends of the
  string and writes the result back to \<^verbatim>\<open>req.params.id\<close>, which is what the handler reads.
  Strings are sequences of code units below 256 here; of those, \<^verbatim>\<open>\s\<close> matches TAB, LF, VT,
  FF, CR, the space and the no-break space.
\<close>

definition js_space :: "char \<Rightarrow> bool" where
  "js_space c = (c \<in> set [CHR 0x09, CHR 0x0A, CHR 0x0B, CHR 0x0C, CHR 0x0D, CHR 0x20, CHR 0xA0])"

definition trim :: "string \<Rightarrow> string" where
  "trim s = rev (dropWhile js_space (rev (dropWhile js_space s)))"

text \<open>
  \<^verbatim>\<open>isInt({ min: 1, max: 100 })\<close> on the text of one value, and on a field: the validator
  is run on the value, or on every element when the value is an array (so the empty array
  passes).
\<close>

fun isInt_item :: "array_item \<Rightarrow> bool" where
  "isInt_item (IntItem n) = (1 \<le> n \<and> n \<le> 100)"
| "isInt_item (OtherItem _) = False"

fun isInt_1_100 :: "body_quantity \<Rightarrow> bool" where
  "isInt_1_100 Absent = False"
| "isInt_1_100 (IntText n) = (1 \<le> n \<and> n \<le> 100)"
| "isInt_1_100 (NotInt _) = False"
| "isInt_1_100 (Items xs) = list_all isInt_item xs"

text \<open>
  The express-validator chain \<^verbatim>\<open>purchaseValidation\<close> followed by \<^verbatim>\<open>validate\<close>:
  \<^verbatim>\<open>param('id').trim().notEmpty()\<close> and
  \<^verbatim>\<open>body('quantity').optional().isInt({ min: 1, max: 100 })\<close>; \<^verbatim>\<open>optional()\<close> skips the
  validator when the field is absent.
\<close>

definition purchaseValidation :: "string \<Rightarrow> body_quantity \<Rightarrow> bool" where
  "purchaseValidation productId q =
     (trim productId \<noteq> [] \<and> (case q of Absent \<Rightarrow> True | _ \<Rightarrow> isInt_1_100 q))"

text \<open>
  \<^verbatim>\<open>parseInt(req.body.quantity)\<close>. An array is first turned into the texts of its elements
  joined by commas, of which \<^verbatim>\<open>parseInt\<close> reads the number at the front: that of the first
  element, and \<^verbatim>\<open>NaN\<close> for the empty array.
\<close>

fun parseInt :: "body_quantity \<Rightarrow> int option" where
  "parseInt Absent = None"
| "parseInt (IntText n) = Some n"
| "parseInt (NotInt r) = r"
| "parseInt (Items []) = None"
| "parseInt (Items (IntItem n # xs)) = Some n"
| "parseInt (Items (OtherItem r # xs)) = r"

text \<open>\<^verbatim>\<open>parseInt(req.body.quantity) || 1\<close>: \<^verbatim>\<open>NaN\<close> and \<open>0\<close> are falsy.\<close>

definition parsed_quantity :: "body_quantity \<Rightarrow> int" where
  "parsed_quantity q =
     (case parseInt q of
        None \<Rightarrow> 1
      | Some n \<Rightarrow> if n = 0 then 1 else n)"

text \<open>
  Everything the route does before it calls the stored procedure: either a response, or
  the arguments \<^verbatim>\<open>(p_quantity, p_price_per_unit, p_product_name)\<close> of the call. \<open>productId\<close> is
  the id as it stands in the path, and \<open>found\<close> what \<^verbatim>\<open>getProductById\<close> answers for the
  trimmed id.
\<close>

definition purchase_checks ::
  "string \<Rightarrow> body_quantity \<Rightarrow> product option \<Rightarrow> purchase_response + (int \<times> rat \<times> string)" where
  "purchase_checks productId q found =
     (if \<not> purchaseValidation productId q then Inl ValidationFailed
      else
        let quantity = parsed_quantity q
        in if quantity < 1 \<or> quantity > 100 then Inl QuantityOutOfRange
           else case found of
                  None \<Rightarrow> Inl ProductNotFound
                | Some product \<Rightarrow>
                    if \<not> prod_is_active product then Inl ProductInactive
                    else (case prod_price product of
                            None \<Rightarrow> Inl InvalidPrice
                          | Some pricePerUnit \<Rightarrow>
                              if pricePerUnit < 0 then Inl InvalidPrice
                              else Inr (quantity, pricePerUnit, prod_name product)))"

text \<open>
  The route. \<open>now\<close> is the database clock of the RPC. The procedure is called with the
  trimmed id. The two regular expressions that read the numbers back out of the error
  message match unsigned numbers only.
\<close>

definition purchase_route ::
  "timestamp \<Rightarrow> string \<Rightarrow> string \<Rightarrow> body_quantity \<Rightarrow> product option \<Rightarrow> db \<Rightarrow> faults
     \<Rightarrow> purchase_response \<times> db" where
  "purchase_route now userId productId q found d fs =
     (case purchase_checks productId q found of
        Inl r \<Rightarrow> (r, d)
      | Inr (quantity, pricePerUnit, name) \<Rightarrow>
          (let (ok, fs1) = db_call_ok fs
           in if \<not> ok then (PurchaseFailed, d)
              else
                case rpc_complete_purchase now userId (trim productId) quantity pricePerUnit name d of
                  (Inl (INSUFFICIENT_STOCK available requested), d') \<Rightarrow>
                     (OutOfStock (if 0 \<le> available \<and> 0 \<le> requested then available else 0) quantity, d')
                | (Inl (INSUFFICIENT_BALANCE b t), d') \<Rightarrow>
                     (if 0 \<le> b \<and> 0 \<le> t then InsufficientFunds b t else InsufficientFunds 0 0, d')
                | (Inl (WALLET_NOT_FOUND u), d') \<Rightarrow> (WalletNotFound, d')
                | (Inl _, d') \<Rightarrow> (PurchaseFailed, d')
                | (Inr r, d') \<Rightarrow> (Purchased r, d')))"

section \<open>The server: the TrueMoney voucher route\<close>

text \<open>
  \<^verbatim>\<open>POST /api/truemoney/redeem\<close>. \<^verbatim>\<open>validateVoucherFormat\<close> and \<^verbatim>\<open>redeemAngpao\<close> parse a URL
  and talk to the payment provider; their answers are inputs here.
\<close>

record voucher_validation =
  v_valid :: bool
  v_alreadyUsed :: bool

record redeem_result =
  r_success :: bool
  r_amount :: js_number

datatype redeem_response =
    MissingLink
  | BadFormat
  | VoucherUsed
  | RedeemRejected
  | RedeemError
  | Redeemed js_number rat

definition redeem_status :: "redeem_response \<Rightarrow> nat" where
  "redeem_status r = (case r of RedeemError \<Rightarrow> 500 | Redeemed _ _ \<Rightarrow> 200 | _ \<Rightarrow> 400)"

text \<open>
  The handler calls \<^verbatim>\<open>updateBalance(userId, amount)\<close>. A call resolves its identifier in the
  module scope of \<^verbatim>\<open>server.js\<close>: the names bound there by \<^verbatim>\<open>require\<close>, \<^verbatim>\<open>const\<close> and
  function declarations. The one function of that scope that writes a balance,
  \<^verbatim>\<open>updateUserBalance(userId, newBalance)\<close>, is the only entry a call of this shape could
  resolve to; an identifier without binding throws \<^verbatim>\<open>ReferenceError\<close>.
\<close>

definition balance_writers :: "(string \<times> (string \<Rightarrow> js_number \<Rightarrow> db \<Rightarrow> faults \<Rightarrow> db \<times> faults)) list" where
  "balance_writers = [(''updateUserBalance'', updateUserBalance)]"

definition truemoney_redeem ::
  "timestamp \<Rightarrow> string \<Rightarrow> string option \<Rightarrow> voucher_validation \<Rightarrow> redeem_result \<Rightarrow> db \<Rightarrow> faults
     \<Rightarrow> redeem_response \<times> db" where
  "truemoney_redeem now userId voucherLink validation result d fs =
     (case voucherLink of
        None \<Rightarrow> (MissingLink, d)
      | Some link \<Rightarrow>
          if link = [] then (MissingLink, d)
          else if \<not> v_valid validation then (BadFormat, d)
          else if v_alreadyUsed validation then (VoucherUsed, d)
          else if \<not> r_success result then (RedeemRejected, d)
          else
            let amount = r_amount result
            in (case map_of balance_writers ''updateBalance'' of
                  None \<Rightarrow> (RedeemError, d)
                | Some updateBalance \<Rightarrow>
                    (let (d1, fs1) = updateBalance userId amount d fs;
                         (txn, d2, fs2) = addTransaction userId ''topup'' amount
                                            [(''method'', JStr ''truemoney_angpao'')] now d1 fs1;
                         (newBalance, d3, fs3) = getUserBalance userId d2 fs2
                     in (Redeemed amount newBalance, d3))))"

section \<open>Histories, balances and the ledger\<close>

text \<open>
  One request served by the server takes the database from \<open>d\<close> to \<open>d'\<close>. The routes
  modelled above are spelled out; \<open>ok\<close> restricts the amounts sent to the two routes that
  coerce \<^verbatim>\<open>req.body.amount\<close> more than once. Every other route of the server (catalog and
  stock management, submitting, cancelling and rejecting top-up requests) writes neither
  \<^verbatim>\<open>wallets\<close> nor \<^verbatim>\<open>transactions\<close> nor \<^verbatim>\<open>orders\<close>; rule \<open>other\<close> stands for all of them.
\<close>

inductive step :: "(js_value \<Rightarrow> bool) \<Rightarrow> db \<Rightarrow> db \<Rightarrow> bool" for ok :: "js_value \<Rightarrow> bool" where
  login: "getOrCreateWallet userId d fs = (b, d', fs') \<Longrightarrow> step ok d d'"
| purchase: "purchase_route now userId productId q found d fs = (resp, d') \<Longrightarrow> step ok d d'"
| deduct: "ok amount \<Longrightarrow> wallet_deduct now userId amount productId productName d fs = (resp, d')
             \<Longrightarrow> step ok d d'"
| topup: "ok amount \<Longrightarrow> admin_topup now adminId userId amount note d fs = (resp, d')
             \<Longrightarrow> step ok d d'"
| approve: "approve_topup now requestId adminId note bodyAmount d fs = (resp, d') \<Longrightarrow> step ok d d'"
| redeem: "truemoney_redeem now userId voucherLink validation result d fs = (resp, d')
             \<Longrightarrow> step ok d d'"
| other: "wallets d' = wallets d \<Longrightarrow> transactions d' = transactions d \<Longrightarrow> orders d' = orders d
             \<Longrightarrow> step ok d d'"

definition any_value :: "js_value \<Rightarrow> bool" where
  "any_value v = True"

text \<open>The balance \<^verbatim>\<open>getUserBalance\<close> reads when the storage answers: a missing wallet and a
  \<^verbatim>\<open>NULL\<close> balance read as 0.\<close>

definition balance_of :: "db \<Rightarrow> string \<Rightarrow> rat" where
  "balance_of d u = (case wallet_balance d u of None \<Rightarrow> 0 | Some b \<Rightarrow> b)"

text \<open>The database after the lazy creation of the wallet row of \<open>u\<close>.\<close>

definition with_wallet :: "db \<Rightarrow> string \<Rightarrow> db" where
  "with_wallet d u =
     (case wallets d u of None \<Rightarrow> d\<lparr>wallets := (wallets d)(u \<mapsto> Some 0)\<rparr> | Some b \<Rightarrow> d)"

definition nonneg_balances :: "db \<Rightarrow> bool" where
  "nonneg_balances d = (\<forall>u b. wallet_balance d u = Some b \<longrightarrow> 0 \<le> b)"

text \<open>The ledger of an account: its transaction rows in commit order.\<close>

definition ledger :: "db \<Rightarrow> string \<Rightarrow> transaction_row list" where
  "ledger d u = filter (\<lambda>t. txn_user_id t = u) (transactions d)"

definition ledger_sum :: "db \<Rightarrow> string \<Rightarrow> rat" where
  "ledger_sum d u = sum_list (map txn_amount (ledger d u))"

definition ledger_consistent :: "db \<Rightarrow> string \<Rightarrow> bool" where
  "ledger_consistent d u =
     (ledger_sum d u = balance_of d u \<and>
      (case ledger d u of [] \<Rightarrow> True | t # ts \<Rightarrow> txn_balance_after (last (t # ts)) = balance_of d u))"

section \<open>Concrete states used to exercise the theorems\<close>

definition fresh_unit :: "uuid \<Rightarrow> string \<Rightarrow> string \<Rightarrow> timestamp \<Rightarrow> product_stock" where
  "fresh_unit i p payload t =
     \<lparr>stock_id = i, stock_product_id = p, stock_data = payload, is_sold = False, sold_to = None,
      sold_at = None, stock_order_id = None, stock_created_at = t\<rparr>"

text \<open>Product \<open>P\<close> with three unsold units, account \<open>A\<close> with balance 250.\<close>

definition scenario_db :: db where
  "scenario_db =
     empty_db\<lparr>wallets := [''A'' \<mapsto> Some 250],
              product_stocks := [fresh_unit 1 ''P'' ''key-b'' 20, fresh_unit 2 ''P'' ''key-a'' 10,
                                 fresh_unit 3 ''P'' ''key-c'' 30]\<rparr>"

definition product_P :: product where
  "product_P = \<lparr>prod_name = ''Product P'', prod_price = Some 100, prod_is_active = True\<rparr>"

text \<open>
  The same with more in the tables: an older unsold unit of another product \<open>Q\<close>, a unit of
  \<open>P\<close> that is older still and already sold, and a second account \<open>B\<close>. Product \<open>P\<close> has
  exactly three unsold units and \<open>A\<close> has balance 250.
\<close>

definition mixed_db :: db where
  "mixed_db =
     empty_db\<lparr>wallets := [''A'' \<mapsto> Some 250, ''B'' \<mapsto> Some 40],
              product_stocks :=
                [fresh_unit 1 ''P'' ''key-b'' 20, fresh_unit 2 ''P'' ''key-a'' 10,
                 fresh_unit 4 ''Q'' ''key-q'' 5,
                 (fresh_unit 5 ''P'' ''key-old'' 1)\<lparr>is_sold := True, sold_to := Some ''B'',
                    sold_at := Some 2, stock_order_id := Some ''ORD2''\<rparr>,
                 fresh_unit 3 ''P'' ''key-c'' 30]\<rparr>"



text \<open>A unit already sold to \<open>A\<close> under order \<open>ORD1\<close> at time 5.\<close>

definition sold_unit_db :: db where
  "sold_unit_db =
     empty_db\<lparr>product_stocks :=
       [(fresh_unit 7 ''P'' ''key-x'' 1)\<lparr>is_sold := True, sold_to := Some ''A'', sold_at := Some 5,
                                         stock_order_id := Some ''ORD1''\<rparr>]\<rparr>"

text \<open>Account \<open>A\<close> after one admin top-up of 100 on the empty database.\<close>

definition funded_db :: db where
  "funded_db = snd (admin_topup 1700000000000 ''admin'' ''A'' (js_num 100) [] empty_db [])"

text \<open>Account \<open>A\<close> with balance 20 and one pending top-up request of 100.\<close>

definition pending_db :: db where
  "pending_db =
     empty_db\<lparr>wallets := [''A'' \<mapsto> Some 20],
              topup_requests :=
                [\<lparr>request_id = ''REQ1'', req_user_id = ''A'', req_amount = 100,
                  req_method = ''promptpay'', req_slip_url = None, req_status = ''pending'',
                  req_admin_note = None, req_reviewed_by = None, req_reviewed_at = None\<rparr>]\<rparr>"

section \<open>Failure atomicity of the purchase\<close>

lemma complete_purchase_business_failure_state:
  assumes "complete_purchase now u p q ppu pname d = (Inl e, d')" and "business_failure e"
  shows "d' = d"
  using assms
  by (auto simp: complete_purchase_def Let_def split: option.splits if_splits)

text \<open>
  C1. Whenever \<^verbatim>\<open>complete_purchase\<close> ends in WALLET_NOT_FOUND, INSUFFICIENT_BALANCE or
  INSUFFICIENT_STOCK, no statement has written anything before the \<^verbatim>\<open>RAISE\<close>: the working
  state is the initial one, and so is the state the caller of the RPC is left with. The
  wallet balance is unchanged, every stock unit has the \<^verbatim>\<open>is_sold\<close> it had, and the orders
  and transactions tables hold exactly the rows they held (none was added for the
  attempted order id).
\<close>

theorem purchase_failure_modifies_nothing:
  assumes "complete_purchase now u p q ppu pname d = (Inl e, d')" and "business_failure e"
  shows "d' = d
       \<and> rpc_complete_purchase now u p q ppu pname d = (Inl e, d)
       \<and> wallet_balance d' u = wallet_balance d u
       \<and> map is_sold (product_stocks d') = map is_sold (product_stocks d)
       \<and> filter (\<lambda>r. order_id r = ''ORD'' @ show_nat now) (orders d')
           = filter (\<lambda>r. order_id r = ''ORD'' @ show_nat now) (orders d)
       \<and> filter (txn_references (''ORD'' @ show_nat now)) (transactions d')
           = filter (txn_references (''ORD'' @ show_nat now)) (transactions d)"
proof -
  have same: "d' = d"
    using assms by (rule complete_purchase_business_failure_state)
  have "rpc_complete_purchase now u p q ppu pname d = (Inl e, d)"
    using assms(1) by (simp add: rpc_complete_purchase_def)
  with same show ?thesis by simp
qed

lemma show_nat_now: "show_nat 1700000000 = ''1700000000''"
  by (simp add: show_nat.simps digit_char_def)

theorem purchase_failure_modifies_nothing_witness:
  "complete_purchase 1700000000 ''A'' ''P'' 5 10 ''Product P'' scenario_db
     = (Inl (INSUFFICIENT_STOCK 3 5), scenario_db)
   \<and> business_failure (INSUFFICIENT_STOCK 3 5)
   \<and> rpc_complete_purchase 1700000000 ''A'' ''P'' 5 10 ''Product P'' scenario_db
     = (Inl (INSUFFICIENT_STOCK 3 5), scenario_db)"
proof -
  have run: "complete_purchase 1700000000 ''A'' ''P'' 5 10 ''Product P'' scenario_db
               = (Inl (INSUFFICIENT_STOCK 3 5), scenario_db)"
    by (simp add: complete_purchase_def scenario_db_def empty_db_def fresh_unit_def
        wallet_balance_def select_unsold_def unsold_of_def Let_def)
  have biz: "business_failure (INSUFFICIENT_STOCK 3 5)" by simp
  from purchase_failure_modifies_nothing [OF run biz] run biz show ?thesis by simp
qed

section \<open>The stock selection\<close>

lemma set_select_unsold: "set (select_unsold d p q) \<subseteq> set (unsold_of d p)"
  unfolding select_unsold_def using set_take_subset[of "nat q" "sort_key stock_created_at (unsold_of d p)"]
  by simp

lemma sorted_select_unsold: "sorted (map stock_created_at (select_unsold d p q))"
  unfolding select_unsold_def by (simp add: take_map[symmetric] sorted_wrt_take)

lemma length_select_unsold:
  "length (select_unsold d p q) = min (nat q) (length (unsold_of d p))"
  unfolding select_unsold_def by (simp add: min.commute)

lemma select_unsold_oldest:
  assumes "s \<in> set (select_unsold d p q)" and "u \<in> set (unsold_of d p)"
    and "stock_id u \<notin> stock_id ` set (select_unsold d p q)"
  shows "stock_created_at s \<le> stock_created_at u"
proof -
  let ?S = "sort_key stock_created_at (unsold_of d p)"
  have split: "?S = take (nat q) ?S @ drop (nat q) ?S" by simp
  have "u \<in> set ?S" using assms(2) by simp
  then have "u \<in> set (take (nat q) ?S) \<or> u \<in> set (drop (nat q) ?S)"
    by (metis Un_iff set_append split)
  moreover have "u \<notin> set (take (nat q) ?S)"
    using assms(3) unfolding select_unsold_def by blast
  ultimately have u: "u \<in> set (drop (nat q) ?S)" by simp
  have "sorted (map stock_created_at ?S)" by (rule sorted_sort_key)
  then have "sorted (map stock_created_at (take (nat q) ?S) @ map stock_created_at (drop (nat q) ?S))"
    by (metis append_take_drop_id map_append)
  then have "\<forall>x\<in>set (take (nat q) ?S). \<forall>y\<in>set (drop (nat q) ?S). stock_created_at x \<le> stock_created_at y"
    by (auto simp: sorted_append)
  with u assms(1) show ?thesis unfolding select_unsold_def by blast
qed

lemma filter_not_in_take:
  assumes "distinct (map g S)"
  shows "filter (\<lambda>s. g s \<notin> set (map g (take k S))) S = drop k S"
proof -
  let ?P = "\<lambda>s. g s \<notin> set (map g (take k S))"
  have "distinct (map g (take k S @ drop k S))" using assms by simp
  then have disj: "set (map g (take k S)) \<inter> set (map g (drop k S)) = {}"
    unfolding map_append distinct_append by blast
  have a: "filter ?P (take k S) = []" by (simp add: filter_empty_conv)
  have b: "filter ?P (drop k S) = drop k S"
    using disj by (auto simp: filter_id_conv)
  have "filter ?P S = filter ?P (take k S @ drop k S)" by simp
  also have "\<dots> = drop k S" unfolding filter_append a b by simp
  finally show ?thesis .
qed

lemma unsold_after_mark:
  "unsold_of (d\<lparr>wallets := w, product_stocks := map (mark_sold ids u t oid) (product_stocks d)\<rparr>) p
     = filter (\<lambda>s. stock_id s \<notin> set ids) (unsold_of d p)"
proof -
  have "filter (\<lambda>s. stock_product_id s = p \<and> \<not> is_sold s) (map (mark_sold ids u t oid) xs)
        = filter (\<lambda>s. stock_id s \<notin> set ids) (filter (\<lambda>s. stock_product_id s = p \<and> \<not> is_sold s) xs)" for xs
    by (induction xs) (auto simp: mark_sold_def)
  then show ?thesis by (simp add: unsold_of_def)
qed

lemma length_unsold_after_select:
  assumes "distinct (map stock_id (product_stocks d))"
  shows "length (filter (\<lambda>s. stock_id s \<notin> set (map stock_id (select_unsold d p q))) (unsold_of d p))
         = length (unsold_of d p) - nat q"
proof -
  let ?U = "unsold_of d p"
  let ?S = "sort_key stock_created_at ?U"
  let ?P = "\<lambda>s. stock_id s \<notin> set (map stock_id (take (nat q) ?S))"
  have dU: "distinct (map stock_id ?U)"
    using assms unfolding unsold_of_def by (simp add: distinct_map_filter)
  then have "distinct ?U \<and> inj_on stock_id (set ?U)" by (simp add: distinct_map)
  then have dS: "distinct (map stock_id ?S)" by (simp add: distinct_map)
  have "length (filter ?P ?U) = length (sort_key stock_created_at (filter ?P ?U))" by simp
  also have "\<dots> = length (filter ?P ?S)" by (simp add: filter_sort)
  also have "\<dots> = length (drop (nat q) ?S)" using filter_not_in_take[OF dS] by simp
  also have "\<dots> = length ?U - nat q" by simp
  finally show ?thesis unfolding select_unsold_def .
qed

lemma complete_purchase_success:
  assumes bal: "wallet_balance d u = Some b" and enough: "ppu * of_int q \<le> b"
    and q: "1 \<le> q" and stock: "q \<le> int (length (unsold_of d p))"
    and fresh_o: "''ORD'' @ show_nat now \<notin> set (map order_id (orders d))"
    and fresh_t: "''TXN'' @ show_nat now \<notin> set (map transaction_id (transactions d))"
  shows "complete_purchase now u p q ppu pname d =
     (Inr \<lparr>res_orderId = ''ORD'' @ show_nat now, res_transactionId = ''TXN'' @ show_nat now,
           res_deliveryItems = map stock_data (select_unsold d p q), res_total = ppu * of_int q,
           res_newBalance = b - ppu * of_int q\<rparr>,
      d\<lparr>wallets := (wallets d)(u \<mapsto> Some (b - ppu * of_int q)),
        product_stocks := map (mark_sold (map stock_id (select_unsold d p q)) u now (''ORD'' @ show_nat now))
                              (product_stocks d),
        orders := orders d @
          [\<lparr>order_id = ''ORD'' @ show_nat now, order_user_id = u, order_product_id = p,
            order_product_name = pname, order_quantity = q, order_price = ppu,
            order_total = ppu * of_int q, order_status = ''completed'',
            order_delivery_items = map stock_data (select_unsold d p q),
            order_delivered_at = now\<rparr>],
        transactions := transactions d @
          [\<lparr>transaction_id = ''TXN'' @ show_nat now, txn_user_id = u, txn_type = ''purchase'',
            txn_amount = - (ppu * of_int q), txn_balance_after = b - ppu * of_int q,
            txn_details = [(''productId'', JStr p), (''productName'', JStr pname),
                           (''orderId'', JStr (''ORD'' @ show_nat now)), (''quantity'', JInt q)]\<rparr>]\<rparr>)"
proof -
  have len: "length (select_unsold d p q) = nat q"
    using stock q by (simp add: length_select_unsold)
  then have ne: "select_unsold d p q \<noteq> []" using q by auto
  show ?thesis
    using bal enough q fresh_o fresh_t len ne
    by (simp add: complete_purchase_def Let_def)
qed

section \<open>The purchase scenario\<close>

text \<open>An id that neither starts nor ends with a space character is passed on as it is.\<close>

lemma trim_plain:
  assumes "s \<noteq> []" and "\<not> js_space (hd s)" and "\<not> js_space (last s)"
  shows "trim s = s"
proof -
  from assms(1,2) have a: "dropWhile js_space s = s" by (cases s) auto
  from assms(1,3) have "\<not> js_space (hd (rev s))" by (simp add: hd_rev)
  with assms(1) have "dropWhile js_space (rev s) = rev s" by (cases "rev s") auto
  with a show ?thesis by (simp add: trim_def)
qed





section \<open>First in, first out\<close>

lemma distinct_select_unsold:
  assumes "distinct (map stock_id (product_stocks d))"
  shows "distinct (map stock_id (select_unsold d p q))"
proof -
  have "distinct (map stock_id (unsold_of d p))"
    using assms unfolding unsold_of_def by (simp add: distinct_map_filter)
  then have "distinct (unsold_of d p) \<and> inj_on stock_id (set (unsold_of d p))"
    by (simp add: distinct_map)
  then have "distinct (map stock_id (sort_key stock_created_at (unsold_of d p)))"
    by (simp add: distinct_map)
  then show ?thesis
    unfolding select_unsold_def by (simp add: take_map [symmetric] del: take_map)
qed

lemma complete_purchase_result:
  assumes "complete_purchase now u p q ppu pname d = (Inr r, d')"
  shows "res_deliveryItems r = map stock_data (select_unsold d p q)
       \<and> int (length (select_unsold d p q)) = q \<and> 1 \<le> q
       \<and> res_orderId r = ''ORD'' @ show_nat now
       \<and> product_stocks d' =
           map (mark_sold (map stock_id (select_unsold d p q)) u now (res_orderId r)) (product_stocks d)"
proof -
  from assms obtain b where b: "wallet_balance d u = Some b"
    by (auto simp: complete_purchase_def Let_def split: option.splits)
  from assms b have ne: "select_unsold d p q \<noteq> []" and le: "q \<le> int (length (select_unsold d p q))"
    and nn: "0 \<le> q"
    by (auto simp: complete_purchase_def Let_def split: if_splits)
  have "length (select_unsold d p q) \<le> nat q" by (simp add: length_select_unsold)
  with le nn have len: "int (length (select_unsold d p q)) = q" by linarith
  with ne have "1 \<le> q" by (cases "select_unsold d p q") auto
  moreover from assms b have "res_deliveryItems r = map stock_data (select_unsold d p q)"
    "res_orderId r = ''ORD'' @ show_nat now"
    "product_stocks d' =
       map (mark_sold (map stock_id (select_unsold d p q)) u now (''ORD'' @ show_nat now)) (product_stocks d)"
    by (auto simp: complete_purchase_def Let_def split: if_splits)
  ultimately show ?thesis using len by simp
qed

lemma complete_purchase_reserves:
  assumes bal: "wallet_balance d u = Some b" and enough: "ppu * of_int q \<le> b"
    and q: "1 \<le> q" and stock: "q \<le> int (length (unsold_of d p))"
  shows "\<exists>res d'. complete_purchase now u p q ppu pname d = (res, d')
           \<and> product_stocks d' =
               map (mark_sold (map stock_id (select_unsold d p q)) u now (''ORD'' @ show_nat now))
                   (product_stocks d)
           \<and> (if ''ORD'' @ show_nat now \<notin> set (map order_id (orders d))
                 \<and> ''TXN'' @ show_nat now \<notin> set (map transaction_id (transactions d))
               then \<exists>r. res = Inr r
                      \<and> res_deliveryItems r = map stock_data (select_unsold d p q)
                      \<and> res_orderId r = ''ORD'' @ show_nat now
               else \<exists>c. res = Inl (UNIQUE_VIOLATION c))"
proof -
  have len: "length (select_unsold d p q) = nat q"
    using stock q by (simp add: length_select_unsold)
  then have ne: "select_unsold d p q \<noteq> []" using q by auto
  show ?thesis
    using bal enough q len ne
    by (simp add: complete_purchase_def Let_def)
qed

text \<open>
  With quantity 0 the query selects nothing and \<^verbatim>\<open>array_length\<close> of the empty array is
  \<^verbatim>\<open>NULL\<close>: the procedure raises INSUFFICIENT_STOCK, available 0, requested 0. The route never
  asks for 0 units.
\<close>

lemma complete_purchase_zero_quantity:
  assumes "wallet_balance d u = Some b" and "0 \<le> b"
  shows "complete_purchase now u p 0 ppu pname d = (Inl (INSUFFICIENT_STOCK 0 0), d)"
  using assms by (simp add: complete_purchase_def select_unsold_def Let_def)

text \<open>
  C5. For a quantity \<open>q \<ge> 0\<close> the reservation query selects unsold units of the product, in
  ascending order of \<^verbatim>\<open>created_at\<close>, and every unsold unit of the product it leaves out is at
  least as new as every unit it takes. When at least \<open>q\<close> unsold units exist it takes exactly
  \<open>q\<close>; when fewer exist, \<^verbatim>\<open>reserve_stock\<close> and \<^verbatim>\<open>complete_purchase\<close> raise INSUFFICIENT_STOCK
  with the number available and the number requested, and the database is as before: no
  unit is marked. A purchase of \<open>q \<ge> 1\<close> units by an account whose balance covers the total,
  when at least \<open>q\<close> unsold units exist, gets past the reservation: \<^verbatim>\<open>complete_purchase\<close> marks
  exactly the selected units as sold to the buyer under the order id of the call, the
  unsold units of the product that remain are those it did not select, and it returns the
  payloads of the selected units in their order, unless the id of the clock second is
  already taken, in which case the \<^verbatim>\<open>INSERT\<close> raises and the caller finds the database as
  before. A successful purchase delivers and marks exactly the selected units.
\<close>

theorem reservation_selects_oldest:
  assumes q: "0 \<le> q"
  shows "(let sel = select_unsold d p q; available = get_available_stock_count d p
          in set sel \<subseteq> set (unsold_of d p)
           \<and> sorted (map stock_created_at sel)
           \<and> (\<forall>s\<in>set sel. \<forall>x\<in>set (unsold_of d p).
                 stock_id x \<notin> stock_id ` set sel \<longrightarrow> stock_created_at s \<le> stock_created_at x)
           \<and> (distinct (map stock_id (product_stocks d)) \<longrightarrow> distinct (map stock_id sel))
           \<and> (q \<le> available \<longrightarrow>
                 int (length sel) = q
               \<and> reserve_stock d p q usr = Inr (map (\<lambda>s. (stock_id s, stock_data s)) sel))
           \<and> (available < q \<longrightarrow>
                 reserve_stock d p q usr = Inl (INSUFFICIENT_STOCK available q)
               \<and> (\<forall>now b ppu pname. wallet_balance d usr = Some b \<and> ppu * of_int q \<le> b \<longrightarrow>
                     complete_purchase now usr p q ppu pname d
                       = (Inl (INSUFFICIENT_STOCK available q), d)))
           \<and> (1 \<le> q \<and> q \<le> available \<longrightarrow>
                 (\<forall>now b ppu pname. wallet_balance d usr = Some b \<and> ppu * of_int q \<le> b \<longrightarrow>
                    (\<exists>res d'.
                        complete_purchase now usr p q ppu pname d = (res, d')
                      \<and> product_stocks d' =
                          map (mark_sold (map stock_id sel) usr now (''ORD'' @ show_nat now))
                              (product_stocks d)
                      \<and> unsold_of d' p
                          = filter (\<lambda>s. stock_id s \<notin> set (map stock_id sel)) (unsold_of d p)
                      \<and> (distinct (map stock_id (product_stocks d)) \<longrightarrow>
                            int (length (unsold_of d' p)) = available - q)
                      \<and> (if ''ORD'' @ show_nat now \<notin> set (map order_id (orders d))
                            \<and> ''TXN'' @ show_nat now \<notin> set (map transaction_id (transactions d))
                          then \<exists>r. res = Inr r
                                 \<and> res_deliveryItems r = map stock_data sel
                                 \<and> res_orderId r = ''ORD'' @ show_nat now
                          else (\<exists>c. res = Inl (UNIQUE_VIOLATION c))
                             \<and> rpc_complete_purchase now usr p q ppu pname d = (res, d)))))
           \<and> (\<forall>now ppu pname r d'. complete_purchase now usr p q ppu pname d = (Inr r, d') \<longrightarrow>
                 res_deliveryItems r = map stock_data sel
               \<and> int (length sel) = q
               \<and> product_stocks d' =
                   map (mark_sold (map stock_id sel) usr now (res_orderId r)) (product_stocks d)))"
proof -
  let ?sel = "select_unsold d p q"
  let ?available = "get_available_stock_count d p"
  have len: "length ?sel = min (nat q) (length (unsold_of d p))"
    by (rule length_select_unsold)
  have a: "set ?sel \<subseteq> set (unsold_of d p)" by (rule set_select_unsold)
  have b: "sorted (map stock_created_at ?sel)" by (rule sorted_select_unsold)
  have c: "\<forall>s\<in>set ?sel. \<forall>x\<in>set (unsold_of d p).
             stock_id x \<notin> stock_id ` set ?sel \<longrightarrow> stock_created_at s \<le> stock_created_at x"
    using select_unsold_oldest by blast
  have e: "distinct (map stock_id (product_stocks d)) \<longrightarrow> distinct (map stock_id ?sel)"
    using distinct_select_unsold by blast
  have f: "q \<le> ?available \<longrightarrow> int (length ?sel) = q
             \<and> reserve_stock d p q usr = Inr (map (\<lambda>s. (stock_id s, stock_data s)) ?sel)"
    using q len by (auto simp: reserve_stock_def get_available_stock_count_def Let_def)
  have short: "?available < q \<Longrightarrow> int (length ?sel) = ?available"
    using q len by (auto simp: get_available_stock_count_def)
  have g1: "?available < q \<longrightarrow> reserve_stock d p q usr = Inl (INSUFFICIENT_STOCK ?available q)"
    using q short by (auto simp: reserve_stock_def Let_def)
  have g2: "?available < q \<longrightarrow>
              (\<forall>now b ppu pname. wallet_balance d usr = Some b \<and> ppu * of_int q \<le> b \<longrightarrow>
                 complete_purchase now usr p q ppu pname d = (Inl (INSUFFICIENT_STOCK ?available q), d))"
    using q short by (auto simp: complete_purchase_def Let_def)
  have pos: "\<exists>res d'.
                complete_purchase now usr p q ppu pname d = (res, d')
              \<and> product_stocks d' =
                  map (mark_sold (map stock_id ?sel) usr now (''ORD'' @ show_nat now)) (product_stocks d)
              \<and> unsold_of d' p = filter (\<lambda>s. stock_id s \<notin> set (map stock_id ?sel)) (unsold_of d p)
              \<and> (distinct (map stock_id (product_stocks d)) \<longrightarrow>
                    int (length (unsold_of d' p)) = ?available - q)
              \<and> (if ''ORD'' @ show_nat now \<notin> set (map order_id (orders d))
                    \<and> ''TXN'' @ show_nat now \<notin> set (map transaction_id (transactions d))
                  then \<exists>r. res = Inr r
                         \<and> res_deliveryItems r = map stock_data ?sel
                         \<and> res_orderId r = ''ORD'' @ show_nat now
                  else (\<exists>c. res = Inl (UNIQUE_VIOLATION c))
                     \<and> rpc_complete_purchase now usr p q ppu pname d = (res, d))"
    if q1: "1 \<le> q" and av: "q \<le> ?available"
      and bal: "wallet_balance d usr = Some b" and enough: "ppu * of_int q \<le> b"
    for now b ppu pname
  proof -
    from av have stock: "q \<le> int (length (unsold_of d p))"
      by (simp add: get_available_stock_count_def)
    from complete_purchase_reserves [OF bal enough q1 stock, of now pname]
    obtain res d' where run: "complete_purchase now usr p q ppu pname d = (res, d')"
      and marked: "product_stocks d' =
               map (mark_sold (map stock_id ?sel) usr now (''ORD'' @ show_nat now)) (product_stocks d)"
      and out: "if ''ORD'' @ show_nat now \<notin> set (map order_id (orders d))
                 \<and> ''TXN'' @ show_nat now \<notin> set (map transaction_id (transactions d))
               then \<exists>r. res = Inr r
                      \<and> res_deliveryItems r = map stock_data ?sel
                      \<and> res_orderId r = ''ORD'' @ show_nat now
               else \<exists>c. res = Inl (UNIQUE_VIOLATION c)"
      by blast
    have "unsold_of d' p = unsold_of (d\<lparr>wallets := wallets d, product_stocks := product_stocks d'\<rparr>) p"
      by (simp add: unsold_of_def)
    also have "\<dots> = filter (\<lambda>s. stock_id s \<notin> set (map stock_id ?sel)) (unsold_of d p)"
      unfolding marked by (rule unsold_after_mark)
    finally have left: "unsold_of d' p = filter (\<lambda>s. stock_id s \<notin> set (map stock_id ?sel)) (unsold_of d p)" .
    have count: "distinct (map stock_id (product_stocks d)) \<longrightarrow>
                   int (length (unsold_of d' p)) = ?available - q"
    proof
      assume ids: "distinct (map stock_id (product_stocks d))"
      from length_unsold_after_select [OF ids, of p q] left
      have "length (unsold_of d' p) = length (unsold_of d p) - nat q" by simp
      with stock q1 show "int (length (unsold_of d' p)) = ?available - q"
        by (simp add: get_available_stock_count_def)
    qed
    have rolled: "rpc_complete_purchase now usr p q ppu pname d = (res, d)" if "res = Inl e" for e
      using run that by (simp add: rpc_complete_purchase_def)
    from run marked left count out rolled show ?thesis
      by (auto split: if_splits)
  qed
  have h: "\<forall>now ppu pname r d'. complete_purchase now usr p q ppu pname d = (Inr r, d') \<longrightarrow>
             res_deliveryItems r = map stock_data ?sel \<and> int (length ?sel) = q
           \<and> product_stocks d' = map (mark_sold (map stock_id ?sel) usr now (res_orderId r)) (product_stocks d)"
    using complete_purchase_result by blast
  have pos': "1 \<le> q \<and> q \<le> ?available \<longrightarrow>
                 (\<forall>now b ppu pname. wallet_balance d usr = Some b \<and> ppu * of_int q \<le> b \<longrightarrow>
                    (\<exists>res d'.
                        complete_purchase now usr p q ppu pname d = (res, d')
                      \<and> product_stocks d' =
                          map (mark_sold (map stock_id ?sel) usr now (''ORD'' @ show_nat now))
                              (product_stocks d)
                      \<and> unsold_of d' p
                          = filter (\<lambda>s. stock_id s \<notin> set (map stock_id ?sel)) (unsold_of d p)
                      \<and> (distinct (map stock_id (product_stocks d)) \<longrightarrow>
                            int (length (unsold_of d' p)) = ?available - q)
                      \<and> (if ''ORD'' @ show_nat now \<notin> set (map order_id (orders d))
                            \<and> ''TXN'' @ show_nat now \<notin> set (map transaction_id (transactions d))
                          then \<exists>r. res = Inr r
                                 \<and> res_deliveryItems r = map stock_data ?sel
                                 \<and> res_orderId r = ''ORD'' @ show_nat now
                          else (\<exists>c. res = Inl (UNIQUE_VIOLATION c))
                             \<and> rpc_complete_purchase now usr p q ppu pname d = (res, d))))"
  proof (intro impI allI, elim conjE)
    fix now b ppu pname
    assume "1 \<le> q" "q \<le> ?available" "wallet_balance d usr = Some b" "ppu * of_int q \<le> b"
    then show "\<exists>res d'.
                complete_purchase now usr p q ppu pname d = (res, d')
              \<and> product_stocks d' =
                  map (mark_sold (map stock_id ?sel) usr now (''ORD'' @ show_nat now)) (product_stocks d)
              \<and> unsold_of d' p = filter (\<lambda>s. stock_id s \<notin> set (map stock_id ?sel)) (unsold_of d p)
              \<and> (distinct (map stock_id (product_stocks d)) \<longrightarrow>
                    int (length (unsold_of d' p)) = ?available - q)
              \<and> (if ''ORD'' @ show_nat now \<notin> set (map order_id (orders d))
                    \<and> ''TXN'' @ show_nat now \<notin> set (map transaction_id (transactions d))
                  then \<exists>r. res = Inr r
                         \<and> res_deliveryItems r = map stock_data ?sel
                         \<and> res_orderId r = ''ORD'' @ show_nat now
                  else (\<exists>c. res = Inl (UNIQUE_VIOLATION c))
                     \<and> rpc_complete_purchase now usr p q ppu pname d = (res, d))"
      by (rule pos)
  qed
  have g: "?available < q \<longrightarrow>
              reserve_stock d p q usr = Inl (INSUFFICIENT_STOCK ?available q)
            \<and> (\<forall>now b ppu pname. wallet_balance d usr = Some b \<and> ppu * of_int q \<le> b \<longrightarrow>
                 complete_purchase now usr p q ppu pname d = (Inl (INSUFFICIENT_STOCK ?available q), d))"
    using g1 g2 by (intro impI conjI) (erule (1) mp [rotated])+
  show ?thesis
    unfolding Let_def by (intro conjI a b c e f g pos' h)
qed

theorem reservation_selects_oldest_witness:
  "(0::int) \<le> 2 \<and> (0::int) \<le> 5
   \<and> map stock_id (select_unsold mixed_db ''P'' 2) = [2, 1]
   \<and> sorted (map stock_created_at (select_unsold mixed_db ''P'' 2))
   \<and> reserve_stock mixed_db ''P'' 2 ''A'' = Inr [(2, ''key-a''), (1, ''key-b'')]
   \<and> get_available_stock_count mixed_db ''P'' = 3
   \<and> (\<exists>r d'. complete_purchase 1700000000 ''A'' ''P'' 2 100 ''Product P'' mixed_db = (Inr r, d')
            \<and> res_deliveryItems r = [''key-a'', ''key-b'']
            \<and> map (\<lambda>s. (stock_id s, stock_order_id s)) (product_stocks d')
                = [(1, Some ''ORD1700000000''), (2, Some ''ORD1700000000''), (4, None),
                   (5, Some ''ORD2''), (3, None)]
            \<and> map stock_id (unsold_of d' ''P'') = [3])
   \<and> reserve_stock mixed_db ''P'' 5 ''A'' = Inl (INSUFFICIENT_STOCK 3 5)
   \<and> complete_purchase 1700000000 ''A'' ''P'' 5 10 ''Product P'' mixed_db
        = (Inl (INSUFFICIENT_STOCK 3 5), mixed_db)"
proof -
  have sel: "select_unsold mixed_db ''P'' 2 = [fresh_unit 2 ''P'' ''key-a'' 10, fresh_unit 1 ''P'' ''key-b'' 20]"
    by (simp add: mixed_db_def empty_db_def fresh_unit_def select_unsold_def unsold_of_def)
  have avail: "get_available_stock_count mixed_db ''P'' = 3"
    by (simp add: get_available_stock_count_def mixed_db_def empty_db_def fresh_unit_def unsold_of_def)
  have bal: "wallet_balance mixed_db ''A'' = Some 250"
    by (simp add: mixed_db_def empty_db_def wallet_balance_def)
  have fresh: "''ORD'' @ show_nat 1700000000 \<notin> set (map order_id (orders mixed_db))"
    "''TXN'' @ show_nat 1700000000 \<notin> set (map transaction_id (transactions mixed_db))"
    by (simp_all add: mixed_db_def empty_db_def)
  have two: "(0::int) \<le> 2" and five: "(0::int) \<le> 5" by simp_all
  note at2 = reservation_selects_oldest [OF two, of mixed_db "''P''" "''A''"]
  from at2 sel avail
  have p2: "sorted (map stock_created_at (select_unsold mixed_db ''P'' 2))"
    "reserve_stock mixed_db ''P'' 2 ''A'' = Inr [(2, ''key-a''), (1, ''key-b'')]"
    by (simp_all add: Let_def fresh_unit_def)
  have prem: "(1::int) \<le> 2 \<and> 2 \<le> get_available_stock_count mixed_db ''P''"
    using avail by simp
  have cover: "wallet_balance mixed_db ''A'' = Some 250 \<and> (100::rat) * of_int 2 \<le> 250"
    using bal by simp
  note c7 = at2 [unfolded Let_def, THEN conjunct2, THEN conjunct2, THEN conjunct2, THEN conjunct2,
      THEN conjunct2, THEN conjunct2, THEN conjunct1]
  note all = mp [OF c7 prem]
  from all [THEN spec [where x = 1700000000], THEN spec [where x = 250], THEN spec [where x = 100],
      THEN spec [where x = "''Product P''"], THEN mp, OF cover]
  have "\<exists>res d'.
       complete_purchase 1700000000 ''A'' ''P'' 2 100 ''Product P'' mixed_db = (res, d')
     \<and> product_stocks d' =
         map (mark_sold (map stock_id (select_unsold mixed_db ''P'' 2)) ''A'' 1700000000
                (''ORD'' @ show_nat 1700000000))
             (product_stocks mixed_db)
     \<and> unsold_of d' ''P''
         = filter (\<lambda>s. stock_id s \<notin> set (map stock_id (select_unsold mixed_db ''P'' 2)))
             (unsold_of mixed_db ''P'')
     \<and> (if ''ORD'' @ show_nat 1700000000 \<notin> set (map order_id (orders mixed_db))
           \<and> ''TXN'' @ show_nat 1700000000 \<notin> set (map transaction_id (transactions mixed_db))
         then \<exists>r. res = Inr r
                \<and> res_deliveryItems r = map stock_data (select_unsold mixed_db ''P'' 2)
                \<and> res_orderId r = ''ORD'' @ show_nat 1700000000
         else (\<exists>c. res = Inl (UNIQUE_VIOLATION c))
            \<and> rpc_complete_purchase 1700000000 ''A'' ''P'' 2 100 ''Product P'' mixed_db = (res, mixed_db))"
    by blast
  then obtain res d' where
    run0: "complete_purchase 1700000000 ''A'' ''P'' 2 100 ''Product P'' mixed_db = (res, d')"
    and marked: "product_stocks d' =
         map (mark_sold (map stock_id (select_unsold mixed_db ''P'' 2)) ''A'' 1700000000
                (''ORD'' @ show_nat 1700000000))
             (product_stocks mixed_db)"
    and left: "unsold_of d' ''P''
         = filter (\<lambda>s. stock_id s \<notin> set (map stock_id (select_unsold mixed_db ''P'' 2)))
             (unsold_of mixed_db ''P'')"
    and out: "if ''ORD'' @ show_nat 1700000000 \<notin> set (map order_id (orders mixed_db))
           \<and> ''TXN'' @ show_nat 1700000000 \<notin> set (map transaction_id (transactions mixed_db))
         then \<exists>r. res = Inr r
                \<and> res_deliveryItems r = map stock_data (select_unsold mixed_db ''P'' 2)
                \<and> res_orderId r = ''ORD'' @ show_nat 1700000000
         else (\<exists>c. res = Inl (UNIQUE_VIOLATION c))
            \<and> rpc_complete_purchase 1700000000 ''A'' ''P'' 2 100 ''Product P'' mixed_db = (res, mixed_db)"
    by blast
  from out fresh obtain r where "res = Inr r"
    and items: "res_deliveryItems r = map stock_data (select_unsold mixed_db ''P'' 2)"
    by auto
  with run0 have run: "complete_purchase 1700000000 ''A'' ''P'' 2 100 ''Product P'' mixed_db = (Inr r, d')"
    by simp
  from items sel have i2: "res_deliveryItems r = [''key-a'', ''key-b'']"
    by (simp add: fresh_unit_def)
  from marked sel have m2: "map (\<lambda>s. (stock_id s, stock_order_id s)) (product_stocks d')
                = [(1, Some ''ORD1700000000''), (2, Some ''ORD1700000000''), (4, None),
                   (5, Some ''ORD2''), (3, None)]"
    by (simp add: mixed_db_def empty_db_def fresh_unit_def mark_sold_def show_nat_now)
  from left sel have l2: "map stock_id (unsold_of d' ''P'') = [3]"
    by (simp add: mixed_db_def empty_db_def fresh_unit_def unsold_of_def)
  have p2c: "\<exists>r d'. complete_purchase 1700000000 ''A'' ''P'' 2 100 ''Product P'' mixed_db = (Inr r, d')
            \<and> res_deliveryItems r = [''key-a'', ''key-b'']
            \<and> map (\<lambda>s. (stock_id s, stock_order_id s)) (product_stocks d')
                = [(1, Some ''ORD1700000000''), (2, Some ''ORD1700000000''), (4, None),
                   (5, Some ''ORD2''), (3, None)]
            \<and> map stock_id (unsold_of d' ''P'') = [3]"
    by (rule exI [of _ r], rule exI [of _ d']) (simp add: run i2 m2 l2)
  from reservation_selects_oldest [OF five, of mixed_db "''P''" "''A''"] avail bal
  have p5: "reserve_stock mixed_db ''P'' 5 ''A'' = Inl (INSUFFICIENT_STOCK 3 5)"
    "complete_purchase 1700000000 ''A'' ''P'' 5 10 ''Product P'' mixed_db
       = (Inl (INSUFFICIENT_STOCK 3 5), mixed_db)"
    by (simp_all add: Let_def)
  show ?thesis using sel avail p2 p2c p5 two five by (simp add: fresh_unit_def)
qed

section \<open>Quantity validation of the purchase route\<close>

lemma purchase_checks_range:
  assumes "purchase_checks productId q found = Inr (quantity, ppu, nm)"
  shows "1 \<le> quantity \<and> quantity \<le> 100 \<and> 0 \<le> ppu"
  using assms
  by (auto simp: purchase_checks_def Let_def split: if_splits option.splits)

text \<open>
  The validation chain lets through an absent quantity, a single integer between 1 and 100,
  and an array of such integers; the handler then buys 1 unit for an absent quantity and for
  the empty array, and otherwise as many as the (first) integer says.
\<close>

lemma purchaseValidation_parsed:
  assumes "purchaseValidation productId q"
  shows "parsed_quantity q =
           (case q of Absent \<Rightarrow> 1 | IntText n \<Rightarrow> n | Items [] \<Rightarrow> 1 | Items (IntItem n # xs) \<Rightarrow> n
            | _ \<Rightarrow> 1)
       \<and> 1 \<le> parsed_quantity q \<and> parsed_quantity q \<le> 100"
proof (cases q)
  case (Items xs)
  with assms show ?thesis
    by (cases xs; cases "hd xs") (auto simp: purchaseValidation_def parsed_quantity_def)
qed (use assms in \<open>auto simp: purchaseValidation_def parsed_quantity_def\<close>)

lemma empty_array_buys_one:
  "purchase_checks ''P'' (Items []) (Some product_P) = Inr (1, 100, ''Product P'')"
  by (simp add: purchase_checks_def purchaseValidation_def parsed_quantity_def trim_def
      js_space_def product_P_def)

text \<open>
  C9. A purchase request whose quantity is an integer \<open>n \<le> 0\<close> or \<open>n > 100\<close> is answered by
  the validation middleware with status 400 before the handler runs: the checks end in a
  response, so the stored procedure is not called, and the database is unchanged. More
  generally, whenever the checks do reach the call of the stored procedure, the quantity they
  pass is between 1 and 100.
\<close>

theorem invalid_quantity_rejected_before_settlement:
  assumes "n \<le> 0 \<or> 100 < n"
  shows "purchase_checks productId (IntText n) found = Inl ValidationFailed
       \<and> purchase_route now userId productId (IntText n) found d fs = (ValidationFailed, d)
       \<and> purchase_status ValidationFailed = 400
       \<and> (\<forall>q quantity ppu nm. purchase_checks productId q found = Inr (quantity, ppu, nm)
             \<longrightarrow> 1 \<le> quantity \<and> quantity \<le> 100)"
proof -
  have v: "\<not> purchaseValidation productId (IntText n)"
    using assms by (auto simp: purchaseValidation_def)
  then have c: "purchase_checks productId (IntText n) found = Inl ValidationFailed"
    by (simp add: purchase_checks_def)
  then have r: "purchase_route now userId productId (IntText n) found d fs = (ValidationFailed, d)"
    by (simp add: purchase_route_def)
  have s: "purchase_status ValidationFailed = 400" by (simp add: purchase_status_def)
  from c r s purchase_checks_range show ?thesis by blast
qed

theorem invalid_quantity_rejected_before_settlement_witness:
  "((0::int) \<le> 0 \<or> (100::int) < 0)
   \<and> purchase_route 1700000000 ''A'' ''P'' (IntText 0) (Some product_P) scenario_db []
        = (ValidationFailed, scenario_db)
   \<and> purchase_route 1700000000 ''A'' ''P'' (IntText 101) (Some product_P) scenario_db []
        = (ValidationFailed, scenario_db)
   \<and> purchase_checks ''P'' (IntText (- 3)) (Some product_P) = Inl ValidationFailed"
proof -
  have z: "(0::int) \<le> 0 \<or> (100::int) < 0" by simp
  have big: "(101::int) \<le> 0 \<or> (100::int) < 101" by simp
  have neg: "(- 3::int) \<le> 0 \<or> (100::int) < - 3" by simp
  from invalid_quantity_rejected_before_settlement [OF z, where productId = "''P''"
         and found = "Some product_P" and now = 1700000000 and userId = "''A''"
         and d = scenario_db and fs = "[]"]
       invalid_quantity_rejected_before_settlement [OF big, where productId = "''P''"
         and found = "Some product_P" and now = 1700000000 and userId = "''A''"
         and d = scenario_db and fs = "[]"]
       invalid_quantity_rejected_before_settlement [OF neg, where productId = "''P''"
         and found = "Some product_P"] z
  show ?thesis by simp
qed

section \<open>The voucher route never credits\<close>

lemma truemoney_redeem_state: "snd (truemoney_redeem now userId voucherLink validation result d fs) = d"
  by (simp add: truemoney_redeem_def balance_writers_def Let_def split: option.splits)

text \<open>
  C10. When the voucher link is a non-empty string, its format is valid, it is not marked
  used and the provider reports success, the handler reaches the call of \<^verbatim>\<open>updateBalance\<close>,
  which is bound nowhere; the \<^verbatim>\<open>ReferenceError\<close> is caught and answered with status 500. On
  every path of this route the database it returns is the one it was given: neither a wallet
  nor the transactions table is written.
\<close>

theorem redeem_never_credits:
  assumes "link \<noteq> []" and "v_valid validation" and "\<not> v_alreadyUsed validation"
    and "r_success result"
  shows "truemoney_redeem now userId (Some link) validation result d fs = (RedeemError, d)
       \<and> redeem_status RedeemError = 500
       \<and> (\<forall>t u l v r d0 fs0. snd (truemoney_redeem t u l v r d0 fs0) = d0)"
proof -
  have "map_of balance_writers ''updateBalance'' = None"
    by (simp add: balance_writers_def)
  then have "truemoney_redeem now userId (Some link) validation result d fs = (RedeemError, d)"
    using assms by (simp add: truemoney_redeem_def Let_def)
  moreover have "redeem_status RedeemError = 500" by (simp add: redeem_status_def)
  ultimately show ?thesis using truemoney_redeem_state by blast
qed

theorem redeem_never_credits_witness:
  "''https://gift.truemoney.com/campaign/?v=abcdefgh12345678'' \<noteq> []
   \<and> v_valid \<lparr>v_valid = True, v_alreadyUsed = False\<rparr>
   \<and> \<not> v_alreadyUsed \<lparr>v_valid = True, v_alreadyUsed = False\<rparr>
   \<and> r_success \<lparr>r_success = True, r_amount = Some 100\<rparr>
   \<and> truemoney_redeem 1700000000000 ''A''
        (Some ''https://gift.truemoney.com/campaign/?v=abcdefgh12345678'')
        \<lparr>v_valid = True, v_alreadyUsed = False\<rparr> \<lparr>r_success = True, r_amount = Some 100\<rparr>
        scenario_db []
      = (RedeemError, scenario_db)
   \<and> wallet_balance scenario_db ''A'' = Some 250"
proof -
  have a: "''https://gift.truemoney.com/campaign/?v=abcdefgh12345678'' \<noteq> []" by simp
  have b: "v_valid \<lparr>v_valid = True, v_alreadyUsed = False\<rparr>" by simp
  have c: "\<not> v_alreadyUsed \<lparr>v_valid = True, v_alreadyUsed = False\<rparr>" by simp
  have e: "r_success \<lparr>r_success = True, r_amount = Some 100\<rparr>" by simp
  have bal: "wallet_balance scenario_db ''A'' = Some 250"
    by (simp add: scenario_db_def empty_db_def wallet_balance_def)
  from redeem_never_credits [OF a b c e] a b c e bal show ?thesis by blast
qed

section \<open>Marking stock as sold\<close>

text \<open>
  The claim that finalizing fails for a unit already sold under another order does not hold:
  unit 7, sold to \<open>A\<close> at time 5 under \<open>ORD1\<close>, is handed to \<open>B\<close> under \<open>ORD2\<close> by a call that
  reports success; and a second call for the same order at a later time restamps
  \<^verbatim>\<open>sold_at\<close>.
\<close>

theorem finalize_overwrites_counterexample:
  "fst (markStockAsSold [7] ''B'' ''ORD2'' 9 sold_unit_db []) = True
   \<and> map stock_order_id (product_stocks sold_unit_db) = [Some ''ORD1'']
   \<and> map sold_to (product_stocks sold_unit_db) = [Some ''A'']
   \<and> map sold_at (product_stocks sold_unit_db) = [Some 5]
   \<and> map stock_order_id (product_stocks (fst (snd (markStockAsSold [7] ''B'' ''ORD2'' 9 sold_unit_db []))))
        = [Some ''ORD2'']
   \<and> map sold_to (product_stocks (fst (snd (markStockAsSold [7] ''B'' ''ORD2'' 9 sold_unit_db []))))
        = [Some ''B'']
   \<and> map sold_at (product_stocks (fst (snd (markStockAsSold [7] ''B'' ''ORD2'' 9 sold_unit_db []))))
        = [Some 9]
   \<and> map sold_at (product_stocks (fst (snd (markStockAsSold [7] ''A'' ''ORD1'' 9 sold_unit_db []))))
        = [Some 9]"
  by (simp add: markStockAsSold_def sold_unit_db_def empty_db_def fresh_unit_def mark_sold_def)

lemma mark_sold_twice:
  "mark_sold ids u t2 oid \<circ> mark_sold ids u t1 oid = mark_sold ids u t2 oid"
  by (rule ext) (simp add: mark_sold_def)

lemma markStockAsSold_run:
  "markStockAsSold ids u oid t d []
     = (True, d\<lparr>product_stocks := map (mark_sold ids u t oid) (product_stocks d)\<rparr>, [])"
  by (simp add: markStockAsSold_def)

text \<open>
  C7, as the code has it. \<^verbatim>\<open>markStockAsSold\<close> (when the storage answers) always succeeds
  and rewrites every listed unit: sold, to the given account, at the given time, under the
  given order id, whatever the unit held before. Repeating the call with the same units,
  account and order id leaves everything but \<^verbatim>\<open>sold_at\<close> as the first call left it (the result
  is that of the later call alone), and changes nothing at all when the timestamp is the same.
  The purchase procedure applies the same update, and only to units it has just selected as
  unsold.
\<close>

theorem finalize_is_unconditional:
  "markStockAsSold ids u oid t d []
     = (True, d\<lparr>product_stocks := map (mark_sold ids u t oid) (product_stocks d)\<rparr>, [])
   \<and> list_all (\<lambda>s. if stock_id s \<in> set ids
                    then is_sold s \<and> sold_to s = Some u \<and> sold_at s = Some t \<and> stock_order_id s = Some oid
                    else s \<in> set (product_stocks d))
        (product_stocks (fst (snd (markStockAsSold ids u oid t d []))))
   \<and> fst (snd (markStockAsSold ids u oid t2 (fst (snd (markStockAsSold ids u oid t d []))) []))
        = fst (snd (markStockAsSold ids u oid t2 d []))
   \<and> markStockAsSold ids u oid t (fst (snd (markStockAsSold ids u oid t d []))) []
        = (True, fst (snd (markStockAsSold ids u oid t d [])), [])
   \<and> (\<forall>now usr p q ppu pname r d'.
         complete_purchase now usr p q ppu pname d = (Inr r, d') \<longrightarrow>
           product_stocks d' = map (mark_sold (map stock_id (select_unsold d p q)) usr now (res_orderId r))
                                   (product_stocks d)
         \<and> list_all (\<lambda>s. \<not> is_sold s) (select_unsold d p q))"
proof (intro conjI)
  show "markStockAsSold ids u oid t d []
          = (True, d\<lparr>product_stocks := map (mark_sold ids u t oid) (product_stocks d)\<rparr>, [])"
    by (rule markStockAsSold_run)
  show "list_all (\<lambda>s. if stock_id s \<in> set ids
                    then is_sold s \<and> sold_to s = Some u \<and> sold_at s = Some t \<and> stock_order_id s = Some oid
                    else s \<in> set (product_stocks d))
          (product_stocks (fst (snd (markStockAsSold ids u oid t d []))))"
    by (auto simp: markStockAsSold_run list_all_iff mark_sold_def)
  show "fst (snd (markStockAsSold ids u oid t2 (fst (snd (markStockAsSold ids u oid t d []))) []))
          = fst (snd (markStockAsSold ids u oid t2 d []))"
    by (simp add: markStockAsSold_run mark_sold_twice)
  show "markStockAsSold ids u oid t (fst (snd (markStockAsSold ids u oid t d []))) []
          = (True, fst (snd (markStockAsSold ids u oid t d [])), [])"
    by (simp add: markStockAsSold_run mark_sold_twice)
  have unsold: "list_all (\<lambda>s. \<not> is_sold s) (select_unsold d p q)" for p q
    using set_select_unsold [of d p q] by (auto simp: list_all_iff unsold_of_def)
  show "\<forall>now usr p q ppu pname r d'.
          complete_purchase now usr p q ppu pname d = (Inr r, d') \<longrightarrow>
            product_stocks d' = map (mark_sold (map stock_id (select_unsold d p q)) usr now (res_orderId r))
                                    (product_stocks d)
          \<and> list_all (\<lambda>s. \<not> is_sold s) (select_unsold d p q)"
    using unsold complete_purchase_result by blast
qed

theorem finalize_is_unconditional_witness:
  "markStockAsSold [7] ''B'' ''ORD2'' 9 sold_unit_db []
     = (True, sold_unit_db\<lparr>product_stocks :=
                 [(fresh_unit 7 ''P'' ''key-x'' 1)\<lparr>is_sold := True, sold_to := Some ''B'',
                    sold_at := Some 9, stock_order_id := Some ''ORD2''\<rparr>]\<rparr>, [])"
  using finalize_is_unconditional [of "[7]" "''B''" "''ORD2''" 9 sold_unit_db]
  by (simp add: sold_unit_db_def empty_db_def fresh_unit_def mark_sold_def)

section \<open>What the helpers and routes can change\<close>

lemma getOrCreateWallet_effect:
  assumes "getOrCreateWallet u d fs = (b, d', fs')"
  shows "(d' = d \<or> (wallets d u = None \<and> d' = d\<lparr>wallets := (wallets d)(u \<mapsto> Some 0)\<rparr>))
       \<and> (b = Some 0 \<or> wallets d u = Some b)"
  using assms
  by (auto simp: getOrCreateWallet_def Let_def split: prod.splits if_splits option.splits)

lemma getUserBalance_effect:
  assumes "getUserBalance u d fs = (c, d', fs')"
  shows "(d' = d \<or> (wallets d u = None \<and> d' = d\<lparr>wallets := (wallets d)(u \<mapsto> Some 0)\<rparr>))
       \<and> (c = 0 \<or> wallet_balance d u = Some c)"
proof -
  obtain b where g: "getOrCreateWallet u d fs = (b, d', fs')" and c: "c = (case b of None \<Rightarrow> 0 | Some x \<Rightarrow> x)"
    using assms by (auto simp: getUserBalance_def Let_def split: prod.splits)
  from getOrCreateWallet_effect [OF g] c show ?thesis
    by (auto simp: wallet_balance_def split: option.splits)
qed

lemma updateUserBalance_effect:
  assumes "updateUserBalance u nb d fs = (d', fs')"
  shows "d' = d \<or> d' = d\<lparr>wallets := (wallets d)(u \<mapsto> nb)\<rparr>"
  using assms
  by (auto simp: updateUserBalance_def Let_def split: prod.splits if_splits)

lemma addTransaction_effect:
  assumes "addTransaction u ty a det now d fs = (t, d', fs')"
  shows "\<exists>d1. (d1 = d \<or> (wallets d u = None \<and> d1 = d\<lparr>wallets := (wallets d)(u \<mapsto> Some 0)\<rparr>))
            \<and> (d' = d1 \<or> (\<exists>row. d' = d1\<lparr>transactions := transactions d1 @ [row]\<rparr>
                                \<and> txn_user_id row = u \<and> a = Some (txn_amount row)))"
proof -
  obtain c d1 fs1 where g: "getUserBalance u d fs = (c, d1, fs1)"
    by (cases "getUserBalance u d fs") auto
  from assms g have "d' = d1 \<or> (\<exists>row. d' = d1\<lparr>transactions := transactions d1 @ [row]\<rparr>
                                \<and> txn_user_id row = u \<and> a = Some (txn_amount row))"
    by (auto simp: addTransaction_def Let_def split: prod.splits if_splits option.splits)
  with getUserBalance_effect [OF g] show ?thesis by blast
qed

lemma nonneg_created:
  "nonneg_balances d \<Longrightarrow> nonneg_balances (d\<lparr>wallets := (wallets d)(u \<mapsto> Some 0)\<rparr>)"
  by (auto simp: nonneg_balances_def wallet_balance_def split: option.splits if_splits)

lemma nonneg_written:
  "nonneg_balances d \<Longrightarrow> 0 \<le> x \<Longrightarrow> nonneg_balances (d\<lparr>wallets := (wallets d)(u \<mapsto> Some x)\<rparr>)"
  by (auto simp: nonneg_balances_def wallet_balance_def split: option.splits if_splits)

lemma nonneg_same_wallets:
  "wallets d' = wallets d \<Longrightarrow> nonneg_balances d' = nonneg_balances d"
  by (simp add: nonneg_balances_def wallet_balance_def)

lemma nonneg_getOrCreateWallet:
  assumes "getOrCreateWallet u d fs = (b, d', fs')" and "nonneg_balances d"
  shows "nonneg_balances d'"
  using getOrCreateWallet_effect [OF assms(1)] assms(2) nonneg_created by blast

lemma nonneg_getUserBalance:
  assumes "getUserBalance u d fs = (c, d', fs')" and "nonneg_balances d"
  shows "nonneg_balances d' \<and> 0 \<le> c"
  using getUserBalance_effect [OF assms(1)] assms(2) nonneg_created
  by (auto simp: nonneg_balances_def)

lemma nonneg_updateUserBalance:
  assumes "updateUserBalance u (Some x) d fs = (d', fs')" and "nonneg_balances d" and "0 \<le> x"
  shows "nonneg_balances d'"
  using updateUserBalance_effect [OF assms(1)] assms(2,3) nonneg_written by blast

lemma nonneg_addTransaction:
  assumes "addTransaction u ty a det now d fs = (t, d', fs')" and "nonneg_balances d"
  shows "nonneg_balances d'"
proof -
  from addTransaction_effect [OF assms(1)] obtain d1 where
    d1: "d1 = d \<or> (wallets d u = None \<and> d1 = d\<lparr>wallets := (wallets d)(u \<mapsto> Some 0)\<rparr>)"
    and d': "d' = d1 \<or> (\<exists>row. d' = d1\<lparr>transactions := transactions d1 @ [row]\<rparr>
                                \<and> txn_user_id row = u \<and> a = Some (txn_amount row))"
    by blast
  from d1 assms(2) have "nonneg_balances d1" using nonneg_created by blast
  with d' show ?thesis by (auto simp: nonneg_balances_def wallet_balance_def)
qed

lemma nonneg_stored_null:
  "nonneg_balances d \<Longrightarrow> nonneg_balances (d\<lparr>wallets := (wallets d)(u \<mapsto> None)\<rparr>)"
  by (auto simp: nonneg_balances_def wallet_balance_def split: option.splits if_splits)

lemma nonneg_updateUserBalance_js:
  assumes "updateUserBalance u nb d fs = (d', fs')" and "nonneg_balances d"
    and "\<And>x. nb = Some x \<Longrightarrow> 0 \<le> x"
  shows "nonneg_balances d'"
  using updateUserBalance_effect [OF assms(1)] assms(2,3) nonneg_written nonneg_stored_null
  by (cases nb) auto

lemma nonneg_wallet_deduct:
  assumes run: "wallet_deduct now u v pid pn d fs = (resp, d')"
    and rv: "request_value v" and inv: "nonneg_balances d"
  shows "nonneg_balances d'"
proof (cases "\<not> truthy v \<or> to_number v = None \<or> js_le (to_number v) (Some 0)")
  case True
  with run inv show ?thesis by (simp add: wallet_deduct_def)
next
  case False
  then obtain n where n: "to_number v = Some n" "0 < n" and t: "truthy v"
    by (cases "to_number v") auto
  obtain c d1 fs1 where g: "getUserBalance u d fs = (c, d1, fs1)"
    by (cases "getUserBalance u d fs") auto
  from nonneg_getUserBalance [OF g inv] have inv1: "nonneg_balances d1" and c: "0 \<le> c" by simp_all
  show ?thesis
  proof (cases "c < n")
    case True
    with run n t g inv1 show ?thesis by (simp add: wallet_deduct_def)
  next
    case enough: False
    let ?nb = "js_sub (Some c) (parse_float v)"
    obtain d2 fs2 where w: "updateUserBalance u ?nb d1 fs1 = (d2, fs2)"
      by (cases "updateUserBalance u ?nb d1 fs1") auto
    have "0 \<le> x" if "?nb = Some x" for x
      using rv n c enough that by (auto simp: request_value_def)
    from nonneg_updateUserBalance_js [OF w inv1 this] have inv2: "nonneg_balances d2" .
    obtain tx d3 fs3 where a: "addTransaction u ''purchase'' (js_neg (parse_float v))
        [(''productId'', pid), (''productName'', pn)] now d2 fs2 = (tx, d3, fs3)"
      by (cases "addTransaction u ''purchase'' (js_neg (parse_float v))
        [(''productId'', pid), (''productName'', pn)] now d2 fs2") auto
    from nonneg_addTransaction [OF a inv2] have "nonneg_balances d3" .
    moreover from run n t enough g w a have "d' = d3"
      by (simp add: wallet_deduct_def)
    ultimately show ?thesis by simp
  qed
qed


lemma complete_purchase_Inr:
  assumes "complete_purchase now u p q ppu pname d = (Inr r, d')"
  shows "\<exists>b. wallet_balance d u = Some b \<and> ppu * of_int q \<le> b \<and> 1 \<le> q
           \<and> q \<le> int (length (unsold_of d p))
           \<and> ''ORD'' @ show_nat now \<notin> set (map order_id (orders d))
           \<and> ''TXN'' @ show_nat now \<notin> set (map transaction_id (transactions d))"
proof -
  from assms obtain b where b: "wallet_balance d u = Some b"
    by (auto simp: complete_purchase_def Let_def split: option.splits)
  from complete_purchase_result [OF assms]
  have len: "int (length (select_unsold d p q)) = q" and q: "1 \<le> q" by simp_all
  have "length (select_unsold d p q) \<le> length (unsold_of d p)"
    by (simp add: length_select_unsold)
  with len have stock: "q \<le> int (length (unsold_of d p))" by linarith
  from assms b have "ppu * of_int q \<le> b"
    "''ORD'' @ show_nat now \<notin> set (map order_id (orders d))"
    "''TXN'' @ show_nat now \<notin> set (map transaction_id (transactions d))"
    by (auto simp: complete_purchase_def Let_def split: if_splits)
  with b q stock show ?thesis by blast
qed

lemma rpc_complete_purchase_Inl:
  "rpc_complete_purchase now u p q ppu pname d = (Inl e, d') \<Longrightarrow> d' = d"
  by (auto simp: rpc_complete_purchase_def split: prod.splits sum.splits)

lemma rpc_complete_purchase_Inr:
  "rpc_complete_purchase now u p q ppu pname d = (Inr r, d')
     \<longleftrightarrow> complete_purchase now u p q ppu pname d = (Inr r, d')"
  by (auto simp: rpc_complete_purchase_def split: prod.splits sum.splits)

lemma purchase_route_effect:
  assumes "purchase_route now u p q found d fs = (resp, d')"
  shows "d' = d \<or> (\<exists>quantity ppu nm r. purchase_checks p q found = Inr (quantity, ppu, nm)
                      \<and> complete_purchase now u (trim p) quantity ppu nm d = (Inr r, d')
                      \<and> resp = Purchased r)"
proof (cases "purchase_checks p q found")
  case (Inl r)
  with assms show ?thesis by (simp add: purchase_route_def)
next
  case (Inr args)
  obtain quantity ppu nm where args: "args = (quantity, ppu, nm)" by (cases args) auto
  show ?thesis
  proof (cases "fst (db_call_ok fs)")
    case False
    with assms Inr args show ?thesis
      by (simp add: purchase_route_def Let_def split: prod.splits)
  next
    case True
    obtain out d2 where rpc: "rpc_complete_purchase now u (trim p) quantity ppu nm d = (out, d2)"
      by (cases "rpc_complete_purchase now u (trim p) quantity ppu nm d") auto
    show ?thesis
    proof (cases out)
      case (Inl e)
      with rpc have "d2 = d" by (simp add: rpc_complete_purchase_Inl)
      with assms Inr args True rpc Inl show ?thesis
        by (cases e) (auto simp: purchase_route_def Let_def split: prod.splits if_splits)
    next
      case r: (Inr r)
      with rpc have "complete_purchase now u (trim p) quantity ppu nm d = (Inr r, d2)"
        by (simp add: rpc_complete_purchase_Inr)
      moreover from assms Inr args True rpc r have "d' = d2" "resp = Purchased r"
        by (auto simp: purchase_route_def Let_def split: prod.splits)
      ultimately show ?thesis using Inr args by blast
    qed
  qed
qed

lemma nonneg_complete_purchase:
  assumes "complete_purchase now u p q ppu pname d = (Inr r, d')" and "nonneg_balances d"
  shows "nonneg_balances d'"
proof -
  from complete_purchase_Inr [OF assms(1)] obtain b where
    b: "wallet_balance d u = Some b" and le: "ppu * of_int q \<le> b" and q: "1 \<le> q"
    and st: "q \<le> int (length (unsold_of d p))"
    and fo: "''ORD'' @ show_nat now \<notin> set (map order_id (orders d))"
    and ft: "''TXN'' @ show_nat now \<notin> set (map transaction_id (transactions d))"
    by blast
  from complete_purchase_success [OF b le q st fo ft, of pname] assms(1)
  have "wallets d' = (wallets d)(u \<mapsto> Some (b - ppu * of_int q))" by auto
  moreover have "0 \<le> b - ppu * of_int q" using le by simp
  ultimately show ?thesis
    using assms(2) by (auto simp: nonneg_balances_def wallet_balance_def split: option.splits if_splits)
qed

lemma nonneg_purchase_route:
  assumes "purchase_route now u p q found d fs = (resp, d')" and "nonneg_balances d"
  shows "nonneg_balances d'"
  using purchase_route_effect [OF assms(1)] assms(2) nonneg_complete_purchase by blast

lemma nonneg_admin_topup:
  assumes run: "admin_topup now adminId u v note d fs = (resp, d')"
    and rv: "request_value v" and inv: "nonneg_balances d"
  shows "nonneg_balances d'
       \<or> (truthy v \<and> to_number v = None \<and> (\<exists>a. parse_float v = Some a \<and> a < 0))"
proof (cases "u = [] \<or> \<not> truthy v \<or> js_le (to_number v) (Some 0)")
  case True
  with run inv show ?thesis by (auto simp: admin_topup_def)
next
  case False
  show ?thesis
  proof (cases "to_number v = None \<and> (\<exists>a. parse_float v = Some a \<and> a < 0)")
    case True
    with False show ?thesis by simp
  next
    case fine: False
    obtain w d1 fs1 where g0: "getOrCreateWallet u d fs = (w, d1, fs1)"
      by (cases "getOrCreateWallet u d fs") auto
    from nonneg_getOrCreateWallet [OF g0 inv] have inv1: "nonneg_balances d1" .
    obtain c d2 fs2 where g: "getUserBalance u d1 fs1 = (c, d2, fs2)"
      by (cases "getUserBalance u d1 fs1") auto
    from nonneg_getUserBalance [OF g inv1] have inv2: "nonneg_balances d2" and c: "0 \<le> c" by simp_all
    let ?nb = "js_add (Some c) (parse_float v)"
    obtain d3 fs3 where w: "updateUserBalance u ?nb d2 fs2 = (d3, fs3)"
      by (cases "updateUserBalance u ?nb d2 fs2") auto
    have "0 \<le> x" if "?nb = Some x" for x
    proof (cases "to_number v")
      case None
      with fine that c show ?thesis by (cases "parse_float v") auto
    next
      case (Some n)
      with False have "0 < n" by simp
      with rv Some that c show ?thesis by (auto simp: request_value_def)
    qed
    from nonneg_updateUserBalance_js [OF w inv2 this] have inv3: "nonneg_balances d3" .
    obtain t d4 fs4 where a: "addTransaction u ''topup'' (parse_float v)
        [(''method'', JStr ''admin''), (''note'', JStr (if note = [] then ''Admin topup'' else note)),
         (''adminId'', JStr adminId)] now d3 fs3 = (t, d4, fs4)"
      by (cases "addTransaction u ''topup'' (parse_float v)
        [(''method'', JStr ''admin''), (''note'', JStr (if note = [] then ''Admin topup'' else note)),
         (''adminId'', JStr adminId)] now d3 fs3") auto
    from nonneg_addTransaction [OF a inv3] have "nonneg_balances d4" .
    moreover from run False g0 g w a have "d' = d4"
      by (simp add: admin_topup_def)
    ultimately show ?thesis by simp
  qed
qed


lemma approve_topup_cases:
  assumes "approve_topup now requestId adminId note bodyAmount d fs = (resp, d')"
  shows "(d' = d \<and> resp \<in> {NotPending, AmountRequired, ApproveFailed})
       \<or> (\<exists>request a fs2.
             filter (\<lambda>r. request_id r = requestId \<and> req_status r = ''pending'') (topup_requests d) = [request]
           \<and> 0 < a
           \<and> (if truthy bodyAmount then parse_float bodyAmount = Some a else a = req_amount request)
           \<and> fs2 = snd (db_call_ok (snd (db_call_ok fs)))
           \<and> (resp, d') = credit_request now requestId adminId note request a
                 (d\<lparr>topup_requests := map (approve_row requestId adminId a note now) (topup_requests d)\<rparr>)
                 fs2)"
  using assms
  unfolding approve_topup_def Let_def
  by (auto split: prod.splits if_splits option.splits list.splits)


lemma nonneg_credit_request:
  assumes run: "credit_request now requestId adminId note request a d1 fs2 = (resp, d')"
    and inv: "nonneg_balances d1" and a: "0 < a"
  shows "nonneg_balances d'"
proof -
  let ?u = "req_user_id request"
  obtain w d2 fs3 where g0: "getOrCreateWallet ?u d1 fs2 = (w, d2, fs3)"
    by (cases "getOrCreateWallet ?u d1 fs2") auto
  from nonneg_getOrCreateWallet [OF g0 inv] have inv2: "nonneg_balances d2" .
  obtain c d3 fs4 where g: "getUserBalance ?u d2 fs3 = (c, d3, fs4)"
    by (cases "getUserBalance ?u d2 fs3") auto
  from nonneg_getUserBalance [OF g inv2] have inv3: "nonneg_balances d3" and c: "0 \<le> c" by simp_all
  obtain d4 fs5 where w: "updateUserBalance ?u (Some (c + a)) d3 fs4 = (d4, fs5)"
    by (cases "updateUserBalance ?u (Some (c + a)) d3 fs4") auto
  from a c have "0 \<le> c + a" by simp
  from nonneg_updateUserBalance [OF w inv3 this] have inv4: "nonneg_balances d4" .
  obtain t d5 fs6 where tx: "addTransaction ?u ''topup'' (Some a)
      [(''method'', JStr (req_method request)), (''requestId'', JStr requestId),
       (''approvedBy'', JStr adminId), (''note'', JStr (if note = [] then default_txn_note else note))]
      now d4 fs5 = (t, d5, fs6)"
    by (cases "addTransaction ?u ''topup'' (Some a)
      [(''method'', JStr (req_method request)), (''requestId'', JStr requestId),
       (''approvedBy'', JStr adminId), (''note'', JStr (if note = [] then default_txn_note else note))]
      now d4 fs5") auto
  from nonneg_addTransaction [OF tx inv4] have "nonneg_balances d5" .
  moreover from run g0 g w tx have "d' = d5"
    by (simp add: credit_request_def Let_def)
  ultimately show ?thesis by simp
qed

lemma nonneg_approve_topup:
  assumes run: "approve_topup now requestId adminId note bodyAmount d fs = (resp, d')"
    and inv: "nonneg_balances d"
  shows "nonneg_balances d'"
proof -
  from approve_topup_cases [OF run]
  consider "d' = d"
    | request a fs2 where "0 < a"
        "(resp, d') = credit_request now requestId adminId note request a
                 (d\<lparr>topup_requests := map (approve_row requestId adminId a note now) (topup_requests d)\<rparr>)
                 fs2"
    by blast
  then show ?thesis
  proof cases
    case 1
    with inv show ?thesis by simp
  next
    case 2
    have "nonneg_balances (d\<lparr>topup_requests := map (approve_row requestId adminId a note now) (topup_requests d)\<rparr>)"
      using inv by (simp add: nonneg_balances_def wallet_balance_def)
    from nonneg_credit_request [OF 2(2) [symmetric] this 2(1)] show ?thesis .
  qed
qed

lemma step_nonneg_or_topup:
  assumes "step request_value d d'" and "nonneg_balances d"
  shows "nonneg_balances d'
       \<or> (\<exists>now adminId userId amount nt fs resp a.
             admin_topup now adminId userId amount nt d fs = (resp, d')
           \<and> truthy amount \<and> to_number amount = None \<and> parse_float amount = Some a \<and> a < 0)"
  using assms
proof (induction rule: step.induct)
  case (login userId d fs b d' fs')
  then show ?case using nonneg_getOrCreateWallet by blast
next
  case (purchase now userId productId q found d fs resp d')
  then show ?case using nonneg_purchase_route by blast
next
  case (deduct amount now userId productId productName d fs resp d')
  then show ?case using nonneg_wallet_deduct by blast
next
  case (topup amount now adminId userId nt d fs resp d')
  from nonneg_admin_topup [OF topup(2) topup(1) topup(3)] topup(2) show ?case by blast
next
  case (approve now requestId adminId nt bodyAmount d fs resp d')
  then show ?case using nonneg_approve_topup by blast
next
  case (redeem now userId voucherLink validation result d fs resp d')
  then have "d' = d" using truemoney_redeem_state [of now userId voucherLink validation result d fs] by simp
  with redeem show ?case by simp
next
  case (other d' d)
  then show ?case using nonneg_same_wallets by blast
qed

lemma wallet_deduct_refused:
  assumes t: "truthy v" and n: "to_number v = Some x" and x: "0 < x" and low: "balance_of d u < x"
  shows "\<exists>c d'. wallet_deduct now u v pid pn d fs = (BalanceTooLow c, d')
              \<and> (d' = d \<or> (wallets d u = None \<and> d' = d\<lparr>wallets := (wallets d)(u \<mapsto> Some 0)\<rparr>))"
proof -
  obtain c d1 fs1 where g: "getUserBalance u d fs = (c, d1, fs1)"
    by (cases "getUserBalance u d fs") auto
  from getUserBalance_effect [OF g] have
    d1: "d1 = d \<or> (wallets d u = None \<and> d1 = d\<lparr>wallets := (wallets d)(u \<mapsto> Some 0)\<rparr>)"
    and c: "c = 0 \<or> wallet_balance d u = Some c" by simp_all
  from c x low have "c < x" by (auto simp: balance_of_def)
  with t n x g have "wallet_deduct now u v pid pn d fs = (BalanceTooLow c, d1)"
    by (simp add: wallet_deduct_def)
  with d1 show ?thesis by blast
qed


lemma getOrCreateWallet_nofault:
  "getOrCreateWallet u d [] = (case wallets d u of None \<Rightarrow> Some 0 | Some b \<Rightarrow> b, with_wallet d u, [])"
  by (simp add: getOrCreateWallet_def with_wallet_def split: option.splits)

lemma getUserBalance_nofault:
  "getUserBalance u d [] = (balance_of d u, with_wallet d u, [])"
  by (simp add: getUserBalance_def getOrCreateWallet_nofault balance_of_def wallet_balance_def
      split: option.splits)

lemma updateUserBalance_nofault:
  "updateUserBalance u nb d [] = (d\<lparr>wallets := (wallets d)(u \<mapsto> nb)\<rparr>, [])"
  by (simp add: updateUserBalance_def)

lemma with_wallet_simps [simp]:
  "transactions (with_wallet d u) = transactions d"
  "orders (with_wallet d u) = orders d"
  "product_stocks (with_wallet d u) = product_stocks d"
  "topup_requests (with_wallet d u) = topup_requests d"
  "balance_of (with_wallet d u) v = balance_of d v"
  "with_wallet (with_wallet d u) u = with_wallet d u"
  by (auto simp: with_wallet_def balance_of_def wallet_balance_def split: option.splits)

lemma balance_of_written [simp]:
  "balance_of (d\<lparr>wallets := (wallets d)(u \<mapsto> Some x)\<rparr>) v = (if v = u then x else balance_of d v)"
  by (simp add: balance_of_def wallet_balance_def)

lemma balance_of_frame [simp]:
  "balance_of (d\<lparr>transactions := ts\<rparr>) v = balance_of d v"
  "balance_of (d\<lparr>topup_requests := rs\<rparr>) v = balance_of d v"
  "balance_of (d\<lparr>orders := os\<rparr>) v = balance_of d v"
  "balance_of (d\<lparr>product_stocks := ps\<rparr>) v = balance_of d v"
  by (simp_all add: balance_of_def wallet_balance_def)

lemma addTransaction_nofault:
  "addTransaction u ty (Some a) det now d [] =
     (if ty \<in> set [''topup'', ''purchase'', ''refund'']
         \<and> ''TXN'' @ show_nat now \<notin> set (map transaction_id (transactions d))
      then (Some \<lparr>transaction_id = ''TXN'' @ show_nat now, txn_user_id = u, txn_type = ty,
                   txn_amount = a, txn_balance_after = balance_of d u, txn_details = det\<rparr>,
            (with_wallet d u)\<lparr>transactions := transactions d @
               [\<lparr>transaction_id = ''TXN'' @ show_nat now, txn_user_id = u, txn_type = ty,
                 txn_amount = a, txn_balance_after = balance_of d u, txn_details = det\<rparr>]\<rparr>, [])
      else (None, with_wallet d u, []))"
  by (simp add: addTransaction_def getUserBalance_nofault Let_def)

section \<open>Balances below zero\<close>

text \<open>
  C3 does not hold on the code. The guard of \<^verbatim>\<open>/api/admin/topup\<close> is
  \<^verbatim>\<open>!userId || !amount || amount <= 0\<close>: it compares \<^verbatim>\<open>Number(amount)\<close> and, unlike the guards of
  the sibling routes, has no \<^verbatim>\<open>isNaN\<close> test, while the credit uses \<^verbatim>\<open>parseFloat(amount)\<close>. The
  string \<^verbatim>\<open>"-5abc"\<close> passes the guard (\<^verbatim>\<open>NaN <= 0\<close> is false) and is credited as \<open>-5\<close>: an
  account whose balance reads 0 is left with the balance \<open>-5\<close>, by one request on any state,
  the empty database included. It is the only way below zero: a request of the server made
  on a state without negative balance, whatever its body and whichever storage calls fail,
  either leaves no negative balance or is an admin top-up whose amount \<^verbatim>\<open>Number\<close> reads as
  \<^verbatim>\<open>NaN\<close> and \<^verbatim>\<open>parseFloat\<close> as a negative number. The two debits do what the claim says: a
  purchase whose total exceeds the balance raises INSUFFICIENT_BALANCE with the database
  untouched, and a deduction that exceeds the balance is refused, after at most the creation
  of the missing wallet row with balance 0, with no balance and no ledger row changed.
\<close>

theorem admin_topup_can_store_negative_balance:
  "(u \<noteq> [] \<and> balance_of d u = 0 \<longrightarrow>
      (\<exists>d'. admin_topup now adminId u minus_5abc nt d [] = (ToppedUp (Some (- 5)), d')
           \<and> wallet_balance d' u = Some (- 5)
           \<and> \<not> nonneg_balances d'
           \<and> step request_value d d'))
   \<and> (nonneg_balances d0 \<and> step request_value d0 d1 \<and> \<not> nonneg_balances d1 \<longrightarrow>
        (\<exists>now adminId userId amount nt fs resp a.
             admin_topup now adminId userId amount nt d0 fs = (resp, d1)
           \<and> truthy amount \<and> to_number amount = None \<and> parse_float amount = Some a \<and> a < 0))
   \<and> (wallet_balance d u = Some b \<and> b < ppu * of_int q \<longrightarrow>
         complete_purchase now u p q ppu pname d
           = (Inl (INSUFFICIENT_BALANCE b (ppu * of_int q)), d))
   \<and> (truthy v \<and> to_number v = Some x \<and> 0 < x \<and> balance_of d u < x \<longrightarrow>
         (\<exists>c d'. wallet_deduct now u v pid pn d fs = (BalanceTooLow c, d')
                \<and> (d' = d \<or> d' = with_wallet d u)
                \<and> transactions d' = transactions d
                \<and> (\<forall>w. balance_of d' w = balance_of d w)))"
proof (intro conjI)
  show "u \<noteq> [] \<and> balance_of d u = 0 \<longrightarrow>
      (\<exists>d'. admin_topup now adminId u minus_5abc nt d [] = (ToppedUp (Some (- 5)), d')
           \<and> wallet_balance d' u = Some (- 5)
           \<and> \<not> nonneg_balances d'
           \<and> step request_value d d')"
  proof
    assume h: "u \<noteq> [] \<and> balance_of d u = 0"
    obtain resp d' where run: "admin_topup now adminId u minus_5abc nt d [] = (resp, d')"
      by (cases "admin_topup now adminId u minus_5abc nt d []") auto
    from run h have resp: "resp = ToppedUp (Some (- 5))"
      and w: "wallets d' u = Some (Some (- 5))"
      by (auto simp: admin_topup_def minus_5abc_def getOrCreateWallet_nofault getUserBalance_nofault
          updateUserBalance_nofault addTransaction_nofault Let_def with_wallet_def
          split: if_splits option.splits)
    from w have bal: "wallet_balance d' u = Some (- 5)" by (simp add: wallet_balance_def)
    have neg: "\<not> nonneg_balances d'"
    proof
      assume "nonneg_balances d'"
      with bal have "(0::rat) \<le> - 5" unfolding nonneg_balances_def by blast
      then show False by simp
    qed
    have "request_value minus_5abc" by (simp add: request_value_def minus_5abc_def)
    from step.topup [of request_value, OF this run] have "step request_value d d'" .
    with run resp bal neg show "\<exists>d'. admin_topup now adminId u minus_5abc nt d [] = (ToppedUp (Some (- 5)), d')
           \<and> wallet_balance d' u = Some (- 5) \<and> \<not> nonneg_balances d' \<and> step request_value d d'"
      by blast
  qed
  show "nonneg_balances d0 \<and> step request_value d0 d1 \<and> \<not> nonneg_balances d1 \<longrightarrow>
        (\<exists>now adminId userId amount nt fs resp a.
             admin_topup now adminId userId amount nt d0 fs = (resp, d1)
           \<and> truthy amount \<and> to_number amount = None \<and> parse_float amount = Some a \<and> a < 0)"
    using step_nonneg_or_topup by blast
  show "wallet_balance d u = Some b \<and> b < ppu * of_int q \<longrightarrow>
         complete_purchase now u p q ppu pname d
           = (Inl (INSUFFICIENT_BALANCE b (ppu * of_int q)), d)"
    by (simp add: complete_purchase_def Let_def)
  show "truthy v \<and> to_number v = Some x \<and> 0 < x \<and> balance_of d u < x \<longrightarrow>
         (\<exists>c d'. wallet_deduct now u v pid pn d fs = (BalanceTooLow c, d')
                \<and> (d' = d \<or> d' = with_wallet d u)
                \<and> transactions d' = transactions d
                \<and> (\<forall>w. balance_of d' w = balance_of d w))"
  proof
    assume h: "truthy v \<and> to_number v = Some x \<and> 0 < x \<and> balance_of d u < x"
    then obtain c d' where
      run: "wallet_deduct now u v pid pn d fs = (BalanceTooLow c, d')"
      and d': "d' = d \<or> (wallets d u = None \<and> d' = d\<lparr>wallets := (wallets d)(u \<mapsto> Some 0)\<rparr>)"
      using wallet_deduct_refused [of v x d u now pid pn fs] by blast
    from d' have w: "d' = d \<or> d' = with_wallet d u"
      by (auto simp: with_wallet_def)
    then have "transactions d' = transactions d" "\<forall>w. balance_of d' w = balance_of d w"
      by auto
    with run w show "\<exists>c d'. wallet_deduct now u v pid pn d fs = (BalanceTooLow c, d')
                \<and> (d' = d \<or> d' = with_wallet d u)
                \<and> transactions d' = transactions d
                \<and> (\<forall>w. balance_of d' w = balance_of d w)"
      by blast
  qed
qed

theorem admin_topup_can_store_negative_balance_witness:
  "nonneg_balances empty_db
   \<and> balance_of empty_db ''A'' = 0
   \<and> (\<exists>d'. admin_topup 1700000000000 ''admin'' ''A'' minus_5abc [] empty_db []
              = (ToppedUp (Some (- 5)), d')
          \<and> wallet_balance d' ''A'' = Some (- 5)
          \<and> \<not> nonneg_balances d'
          \<and> step request_value empty_db d'
          \<and> (\<exists>now adminId userId amount nt fs resp a.
                 admin_topup now adminId userId amount nt empty_db fs = (resp, d')
               \<and> truthy amount \<and> to_number amount = None \<and> parse_float amount = Some a \<and> a < 0))
   \<and> complete_purchase 1700000000 ''A'' ''P'' 1 100 ''Product P'' (empty_db\<lparr>wallets := [''A'' \<mapsto> Some 0]\<rparr>)
        = (Inl (INSUFFICIENT_BALANCE 0 100), empty_db\<lparr>wallets := [''A'' \<mapsto> Some 0]\<rparr>)
   \<and> (\<exists>c d'. wallet_deduct 1700000000000 ''A'' (js_num 30) JNull JNull empty_db []
                = (BalanceTooLow c, d')
            \<and> transactions d' = []
            \<and> balance_of d' ''A'' = 0)"
proof -
  let ?d = "empty_db\<lparr>wallets := [''A'' \<mapsto> Some 0]\<rparr>"
  have inv: "nonneg_balances empty_db"
    by (simp add: nonneg_balances_def wallet_balance_def empty_db_def)
  have zero: "balance_of empty_db ''A'' = 0"
    by (simp add: balance_of_def wallet_balance_def empty_db_def)
  have str: "''A'' \<noteq> []" by simp
  note breach = admin_topup_can_store_negative_balance [where u = "''A''" and d = empty_db
      and now = 1700000000000 and adminId = "''admin''" and nt = "[]"]
  from breach str zero obtain d' where
    run: "admin_topup 1700000000000 ''admin'' ''A'' minus_5abc [] empty_db [] = (ToppedUp (Some (- 5)), d')"
    and bal: "wallet_balance d' ''A'' = Some (- 5)"
    and neg: "\<not> nonneg_balances d'"
    and st: "step request_value empty_db d'"
    by blast
  have only: "\<exists>now adminId userId amount nt fs resp a.
                 admin_topup now adminId userId amount nt empty_db fs = (resp, d')
               \<and> truthy amount \<and> to_number amount = None \<and> parse_float amount = Some a \<and> a < 0"
    by (rule mp [OF admin_topup_can_store_negative_balance
          [where ?d0.0 = empty_db and ?d1.0 = d', THEN conjunct2, THEN conjunct1]])
       (intro conjI inv st neg)
  have bal0: "wallet_balance ?d ''A'' = Some 0"
    by (simp add: wallet_balance_def)
  from admin_topup_can_store_negative_balance [where d = ?d and u = "''A''" and b = 0
      and ppu = 100 and q = 1 and now = 1700000000 and p = "''P''" and pname = "''Product P''"] bal0
  have buy: "complete_purchase 1700000000 ''A'' ''P'' 1 100 ''Product P'' ?d
               = (Inl (INSUFFICIENT_BALANCE 0 100), ?d)"
    by simp
  have v: "truthy (js_num 30) \<and> to_number (js_num 30) = Some 30 \<and> (0::rat) < 30
           \<and> balance_of empty_db ''A'' < 30"
    using zero by (simp add: js_num_def)
  from admin_topup_can_store_negative_balance [where d = empty_db and u = "''A''"
      and v = "js_num 30" and x = 30 and now = 1700000000000 and pid = JNull and pn = JNull
      and fs = "[]"] v
  obtain c d2 where
    "wallet_deduct 1700000000000 ''A'' (js_num 30) JNull JNull empty_db [] = (BalanceTooLow c, d2)"
    "transactions d2 = transactions empty_db"
    "\<forall>w. balance_of d2 w = balance_of empty_db w"
    by blast
  with zero have ded: "\<exists>c d'. wallet_deduct 1700000000000 ''A'' (js_num 30) JNull JNull empty_db []
                = (BalanceTooLow c, d')
            \<and> transactions d' = []
            \<and> balance_of d' ''A'' = 0"
    by (auto simp: empty_db_def)
  from inv zero run bal neg st only buy ded show ?thesis by blast
qed

section \<open>Order ids of successful purchases\<close>

lemma orders_getOrCreateWallet:
  "getOrCreateWallet u d fs = (b, d', fs') \<Longrightarrow> orders d' = orders d"
  by (auto dest!: getOrCreateWallet_effect)

lemma orders_getUserBalance:
  "getUserBalance u d fs = (c, d', fs') \<Longrightarrow> orders d' = orders d"
  by (auto dest!: getUserBalance_effect)

lemma orders_updateUserBalance:
  "updateUserBalance u nb d fs = (d', fs') \<Longrightarrow> orders d' = orders d"
  by (auto dest!: updateUserBalance_effect)

lemma orders_addTransaction:
  "addTransaction u ty a det now d fs = (t, d', fs') \<Longrightarrow> orders d' = orders d"
  by (auto dest!: addTransaction_effect)

lemma orders_wallet_deduct:
  "wallet_deduct now u amount pid pn d fs = (resp, d') \<Longrightarrow> orders d' = orders d"
  by (auto simp: wallet_deduct_def Let_def split: prod.splits if_splits
      dest!: orders_getUserBalance orders_updateUserBalance orders_addTransaction)

lemma orders_admin_topup:
  "admin_topup now adminId u amount nt d fs = (resp, d') \<Longrightarrow> orders d' = orders d"
  by (auto simp: admin_topup_def Let_def split: prod.splits if_splits
      dest!: orders_getOrCreateWallet orders_getUserBalance orders_updateUserBalance orders_addTransaction)

lemma orders_credit_request:
  "credit_request now requestId adminId nt request a d1 fs2 = (resp, d') \<Longrightarrow> orders d' = orders d1"
  by (auto simp: credit_request_def Let_def split: prod.splits if_splits
      dest!: orders_getOrCreateWallet orders_getUserBalance orders_updateUserBalance orders_addTransaction)

lemma orders_approve_topup:
  assumes "approve_topup now requestId adminId nt bodyAmount d fs = (resp, d')"
  shows "orders d' = orders d"
proof -
  from approve_topup_cases [OF assms]
  consider "d' = d"
    | request a fs2 where
        "(resp, d') = credit_request now requestId adminId nt request a
                 (d\<lparr>topup_requests := map (approve_row requestId adminId a nt now) (topup_requests d)\<rparr>)
                 fs2"
    by blast
  then show ?thesis
  proof cases
    case 1
    then show ?thesis by simp
  next
    case 2
    from orders_credit_request [OF 2 [symmetric]] show ?thesis by simp
  qed
qed

lemma orders_complete_purchase:
  assumes "complete_purchase now u p q ppu pname d = (Inr r, d')"
  shows "res_orderId r = ''ORD'' @ show_nat now
       \<and> res_orderId r \<notin> set (map order_id (orders d))
       \<and> (\<exists>row. orders d' = orders d @ [row] \<and> order_id row = res_orderId r)
       \<and> (\<exists>t. transactions d' = transactions d @ [t] \<and> txn_references (res_orderId r) t)
       \<and> list_all (\<lambda>s. s \<in> set (product_stocks d) \<or> stock_order_id s = Some (res_orderId r))
            (product_stocks d')"
proof -
  from complete_purchase_Inr [OF assms] obtain b where
    b: "wallet_balance d u = Some b" and le: "ppu * of_int q \<le> b" and q: "1 \<le> q"
    and st: "q \<le> int (length (unsold_of d p))"
    and fo: "''ORD'' @ show_nat now \<notin> set (map order_id (orders d))"
    and ft: "''TXN'' @ show_nat now \<notin> set (map transaction_id (transactions d))"
    by blast
  from complete_purchase_success [OF b le q st fo ft, of pname] assms
  have r: "r = \<lparr>res_orderId = ''ORD'' @ show_nat now, res_transactionId = ''TXN'' @ show_nat now,
           res_deliveryItems = map stock_data (select_unsold d p q), res_total = ppu * of_int q,
           res_newBalance = b - ppu * of_int q\<rparr>"
    and d': "d' = d\<lparr>wallets := (wallets d)(u \<mapsto> Some (b - ppu * of_int q)),
        product_stocks := map (mark_sold (map stock_id (select_unsold d p q)) u now (''ORD'' @ show_nat now))
                              (product_stocks d),
        orders := orders d @
          [\<lparr>order_id = ''ORD'' @ show_nat now, order_user_id = u, order_product_id = p,
            order_product_name = pname, order_quantity = q, order_price = ppu,
            order_total = ppu * of_int q, order_status = ''completed'',
            order_delivery_items = map stock_data (select_unsold d p q),
            order_delivered_at = now\<rparr>],
        transactions := transactions d @
          [\<lparr>transaction_id = ''TXN'' @ show_nat now, txn_user_id = u, txn_type = ''purchase'',
            txn_amount = - (ppu * of_int q), txn_balance_after = b - ppu * of_int q,
            txn_details = [(''productId'', JStr p), (''productName'', JStr pname),
                           (''orderId'', JStr (''ORD'' @ show_nat now)), (''quantity'', JInt q)]\<rparr>]\<rparr>"
    by simp_all
  have stocks: "list_all (\<lambda>s. s \<in> set (product_stocks d) \<or> stock_order_id s = Some (''ORD'' @ show_nat now))
       (map (mark_sold (map stock_id (select_unsold d p q)) u now (''ORD'' @ show_nat now)) (product_stocks d))"
    by (auto simp: list_all_iff mark_sold_def)
  show ?thesis
    using fo stocks unfolding r d' by (simp add: txn_references_def)
qed

lemma orders_purchase_route:
  assumes "purchase_route now u p q found d fs = (resp, d')"
  shows "set (map order_id (orders d)) \<subseteq> set (map order_id (orders d'))"
proof -
  from purchase_route_effect [OF assms]
  consider "d' = d"
    | quantity ppu nm r where "complete_purchase now u (trim p) quantity ppu nm d = (Inr r, d')"
    by blast
  then show ?thesis
  proof cases
    case 1
    then show ?thesis by simp
  next
    case 2
    from orders_complete_purchase [OF 2] show ?thesis by auto
  qed
qed

lemma step_keeps_orders:
  assumes "step ok d d'"
  shows "set (map order_id (orders d)) \<subseteq> set (map order_id (orders d'))"
  using assms
proof (induction rule: step.induct)
  case (login userId d fs b d' fs')
  then show ?case using orders_getOrCreateWallet by fastforce
next
  case (purchase now userId productId q found d fs resp d')
  then show ?case by (rule orders_purchase_route)
next
  case (deduct amount now userId productId productName d fs resp d')
  then show ?case using orders_wallet_deduct by fastforce
next
  case (topup amount now adminId userId nt d fs resp d')
  then show ?case using orders_admin_topup by fastforce
next
  case (approve now requestId adminId nt bodyAmount d fs resp d')
  then show ?case using orders_approve_topup by fastforce
next
  case (redeem now userId voucherLink validation result d fs resp d')
  then have "d' = d" using truemoney_redeem_state [of now userId voucherLink validation result d fs] by simp
  then show ?case by simp
next
  case (other d' d)
  then show ?case by simp
qed

lemma steps_keep_orders:
  assumes "(step ok)\<^sup>*\<^sup>* d d'"
  shows "set (map order_id (orders d)) \<subseteq> set (map order_id (orders d'))"
  using assms
proof (induction rule: rtranclp_induct)
  case base
  show ?case by simp
next
  case (step y z)
  then show ?case using step_keeps_orders by blast
qed

text \<open>
  C8. Take a successful purchase, any number of later requests to the server, and another
  successful purchase. The two order ids differ. The id is not drawn fresh: it is
  \<^verbatim>\<open>'ORD'\<close> followed by the clock second of the call, and a purchase in a second that already
  has an order is refused by the \<^verbatim>\<open>UNIQUE\<close> column and rolled back; what a successful call
  writes (the order row, the ledger row, the stock rows it claims) carries an id that no
  earlier order has.
\<close>

theorem successful_purchases_have_distinct_order_ids:
  assumes first: "rpc_complete_purchase now1 u1 p1 q1 ppu1 n1 d0 = (Inr r1, d1)"
    and between: "(step any_value)\<^sup>*\<^sup>* d1 d2"
    and second: "rpc_complete_purchase now2 u2 p2 q2 ppu2 n2 d2 = (Inr r2, d3)"
  shows "res_orderId r1 \<noteq> res_orderId r2
       \<and> res_orderId r1 \<notin> set (map order_id (orders d0))
       \<and> res_orderId r2 \<notin> set (map order_id (orders d2))
       \<and> (\<exists>row. orders d1 = orders d0 @ [row] \<and> order_id row = res_orderId r1)
       \<and> (\<exists>t. transactions d1 = transactions d0 @ [t] \<and> txn_references (res_orderId r1) t)
       \<and> list_all (\<lambda>s. s \<in> set (product_stocks d0) \<or> stock_order_id s = Some (res_orderId r1))
            (product_stocks d1)
       \<and> (\<exists>row. orders d3 = orders d2 @ [row] \<and> order_id row = res_orderId r2)
       \<and> (\<exists>t. transactions d3 = transactions d2 @ [t] \<and> txn_references (res_orderId r2) t)
       \<and> list_all (\<lambda>s. s \<in> set (product_stocks d2) \<or> stock_order_id s = Some (res_orderId r2))
            (product_stocks d3)"
proof -
  from first have c1: "complete_purchase now1 u1 p1 q1 ppu1 n1 d0 = (Inr r1, d1)"
    by (simp add: rpc_complete_purchase_Inr)
  from second have c2: "complete_purchase now2 u2 p2 q2 ppu2 n2 d2 = (Inr r2, d3)"
    by (simp add: rpc_complete_purchase_Inr)
  note o1 = orders_complete_purchase [OF c1, THEN conjunct2]
    and o2 = orders_complete_purchase [OF c2, THEN conjunct2]
  from o1 obtain row where "orders d1 = orders d0 @ [row]" "order_id row = res_orderId r1"
    by blast
  then have "res_orderId r1 \<in> set (map order_id (orders d1))" by auto
  moreover have "set (map order_id (orders d1)) \<subseteq> set (map order_id (orders d2))"
    by (rule steps_keep_orders [OF between])
  ultimately have "res_orderId r1 \<in> set (map order_id (orders d2))" by auto
  moreover from o2 have "res_orderId r2 \<notin> set (map order_id (orders d2))" by simp
  ultimately have ne: "res_orderId r1 \<noteq> res_orderId r2" by auto
  show ?thesis
    using ne o1 o2 by simp
qed

lemma show_nat_next: "show_nat 1700000001 = ''1700000001''"
  by (simp add: show_nat.simps digit_char_def)

lemmas scenario_eval =
  rpc_complete_purchase_def complete_purchase_def scenario_db_def empty_db_def fresh_unit_def
  wallet_balance_def select_unsold_def unsold_of_def mark_sold_def Let_def
  show_nat_now show_nat_next

theorem successful_purchases_have_distinct_order_ids_witness:
  "fst (rpc_complete_purchase 1700000000 ''A'' ''P'' 1 100 ''Product P'' scenario_db)
     = Inr \<lparr>res_orderId = ''ORD1700000000'', res_transactionId = ''TXN1700000000'',
            res_deliveryItems = [''key-a''], res_total = 100, res_newBalance = 150\<rparr>
   \<and> fst (rpc_complete_purchase 1700000001 ''A'' ''P'' 1 100 ''Product P''
            (snd (rpc_complete_purchase 1700000000 ''A'' ''P'' 1 100 ''Product P'' scenario_db)))
     = Inr \<lparr>res_orderId = ''ORD1700000001'', res_transactionId = ''TXN1700000001'',
            res_deliveryItems = [''key-b''], res_total = 100, res_newBalance = 50\<rparr>
   \<and> ''ORD1700000000'' \<noteq> ''ORD1700000001''
   \<and> fst (rpc_complete_purchase 1700000000 ''A'' ''P'' 1 100 ''Product P''
            (snd (rpc_complete_purchase 1700000000 ''A'' ''P'' 1 100 ''Product P'' scenario_db)))
     = Inl (UNIQUE_VIOLATION ''orders_order_id_key'')"
proof -
  let ?r1 = "\<lparr>res_orderId = ''ORD1700000000'', res_transactionId = ''TXN1700000000'',
            res_deliveryItems = [''key-a''], res_total = 100, res_newBalance = 150\<rparr>"
  let ?r2 = "\<lparr>res_orderId = ''ORD1700000001'', res_transactionId = ''TXN1700000001'',
            res_deliveryItems = [''key-b''], res_total = 100, res_newBalance = 50\<rparr>"
  let ?d1 = "snd (rpc_complete_purchase 1700000000 ''A'' ''P'' 1 100 ''Product P'' scenario_db)"
  let ?d3 = "snd (rpc_complete_purchase 1700000001 ''A'' ''P'' 1 100 ''Product P'' ?d1)"
  have f1: "fst (rpc_complete_purchase 1700000000 ''A'' ''P'' 1 100 ''Product P'' scenario_db) = Inr ?r1"
    by (simp add: scenario_eval)
  have f2: "fst (rpc_complete_purchase 1700000001 ''A'' ''P'' 1 100 ''Product P'' ?d1) = Inr ?r2"
    by (simp add: scenario_eval)
  have f3: "fst (rpc_complete_purchase 1700000000 ''A'' ''P'' 1 100 ''Product P'' ?d1)
              = Inl (UNIQUE_VIOLATION ''orders_order_id_key'')"
    by (simp add: scenario_eval)
  from f1 have first: "rpc_complete_purchase 1700000000 ''A'' ''P'' 1 100 ''Product P'' scenario_db = (Inr ?r1, ?d1)"
    by (simp add: prod_eq_iff)
  from f2 have second: "rpc_complete_purchase 1700000001 ''A'' ''P'' 1 100 ''Product P'' ?d1 = (Inr ?r2, ?d3)"
    by (simp add: prod_eq_iff)
  have between: "(step any_value)\<^sup>*\<^sup>* ?d1 ?d1" by simp
  from successful_purchases_have_distinct_order_ids [OF first between second]
  have "res_orderId ?r1 \<noteq> res_orderId ?r2" by blast
  then have "''ORD1700000000'' \<noteq> ''ORD1700000001''" by simp
  with f1 f2 f3 show ?thesis by blast
qed

section \<open>The ledger and the balance\<close>

lemma show_nat_ms: "show_nat 1700000000000 = ''1700000000000''"
  "show_nat 1700000060000 = ''1700000060000''"
  by (simp_all add: show_nat.simps digit_char_def)

lemma funded_db_eq:
  "funded_db = empty_db\<lparr>wallets := [''A'' \<mapsto> Some 100],
      transactions := [\<lparr>transaction_id = ''TXN1700000000000'', txn_user_id = ''A'',
                        txn_type = ''topup'', txn_amount = 100, txn_balance_after = 100,
                        txn_details = [(''method'', JStr ''admin''), (''note'', JStr ''Admin topup''),
                                       (''adminId'', JStr ''admin'')]\<rparr>]\<rparr>"
  by (simp add: funded_db_def admin_topup_def js_num_def getOrCreateWallet_nofault
      getUserBalance_nofault updateUserBalance_nofault addTransaction_nofault Let_def
      with_wallet_def balance_of_def wallet_balance_def empty_db_def show_nat_ms)

lemma ledger_appended:
  "ledger (d\<lparr>transactions := transactions d @ [t]\<rparr>) u
     = (if txn_user_id t = u then ledger d u @ [t] else ledger d u)"
  by (simp add: ledger_def)

text \<open>
  C4 does not hold on the code. The wallet routes write the balance and the ledger row in
  two separate storage calls, and \<^verbatim>\<open>updateUserBalance\<close> swallows the error of the first. Take
  an account with balance \<open>b\<close> and a deduction of \<open>x\<close>, \<open>0 < x \<le> b\<close>, during which the wallet
  upsert fails (the second storage call of the request): the route answers success with the new
  balance \<open>b - x\<close>, the wallet still holds \<open>b\<close>, and the ledger has gained a row of \<open>-x\<close>. The
  ledger sum has dropped by \<open>x\<close> while the balance has not, so a ledger that reproduced the
  balance before no longer does.
\<close>

theorem ledger_diverges_when_wallet_write_fails:
  assumes wallet: "wallets d u = Some (Some b)" and x: "0 < x" and enough: "x \<le> b"
    and fresh: "''TXN'' @ show_nat now \<notin> set (map transaction_id (transactions d))"
  shows "\<exists>t d'. wallet_deduct now u (js_num x) pid pn d [False, True]
                   = (Deducted (Some (b - x)) (Some t), d')
              \<and> txn_user_id t = u \<and> txn_amount t = - x \<and> txn_balance_after t = b
              \<and> transactions d' = transactions d @ [t]
              \<and> wallets d' = wallets d
              \<and> balance_of d' u = balance_of d u
              \<and> ledger_sum d' u = ledger_sum d u - x
              \<and> (ledger_consistent d u \<longrightarrow> \<not> ledger_consistent d' u)"
proof -
  let ?t = "\<lparr>transaction_id = ''TXN'' @ show_nat now, txn_user_id = u, txn_type = ''purchase'',
             txn_amount = - x, txn_balance_after = b,
             txn_details = [(''productId'', pid), (''productName'', pn)]\<rparr>"
  let ?d' = "d\<lparr>transactions := transactions d @ [?t]\<rparr>"
  have bal: "balance_of d u = b" using wallet by (simp add: balance_of_def wallet_balance_def)
  have run: "wallet_deduct now u (js_num x) pid pn d [False, True] = (Deducted (Some (b - x)) (Some ?t), ?d')"
    using wallet x enough fresh
    by (simp add: wallet_deduct_def js_num_def getUserBalance_def getOrCreateWallet_def
        updateUserBalance_def addTransaction_def Let_def)
  have sum: "ledger_sum ?d' u = ledger_sum d u - x"
    by (simp add: ledger_sum_def ledger_appended)
  have same: "balance_of ?d' u = balance_of d u" by simp
  have broken: "ledger_consistent d u \<longrightarrow> \<not> ledger_consistent ?d' u"
    using sum same x by (auto simp: ledger_consistent_def)
  from run sum same broken show ?thesis by auto
qed

theorem ledger_diverges_when_wallet_write_fails_witness:
  "wallets funded_db ''A'' = Some (Some 100)
   \<and> ledger_consistent funded_db ''A''
   \<and> (\<exists>t d'. wallet_deduct 1700000060000 ''A'' (js_num 30) JNull JNull funded_db [False, True]
                 = (Deducted (Some 70) (Some t), d')
            \<and> balance_of d' ''A'' = 100
            \<and> ledger_sum d' ''A'' = 70
            \<and> \<not> ledger_consistent d' ''A'')"
proof -
  have w: "wallets funded_db ''A'' = Some (Some 100)" by (simp add: funded_db_eq)
  have x: "(0::rat) < 30" and le: "(30::rat) \<le> 100" by simp_all
  have fresh: "''TXN'' @ show_nat 1700000060000 \<notin> set (map transaction_id (transactions funded_db))"
    by (simp add: funded_db_eq show_nat_ms)
  have bal: "balance_of funded_db ''A'' = 100"
    by (simp add: funded_db_eq balance_of_def wallet_balance_def)
  have sum: "ledger_sum funded_db ''A'' = 100"
    by (simp add: funded_db_eq ledger_sum_def ledger_def)
  have ok: "ledger_consistent funded_db ''A''"
    using bal sum by (simp add: ledger_consistent_def) (simp add: funded_db_eq ledger_def)
  from ledger_diverges_when_wallet_write_fails [OF w x le fresh, of JNull JNull]
  obtain t d' where
    "wallet_deduct 1700000060000 ''A'' (js_num 30) JNull JNull funded_db [False, True]
       = (Deducted (Some (100 - 30)) (Some t), d')"
    "balance_of d' ''A'' = balance_of funded_db ''A''"
    "ledger_sum d' ''A'' = ledger_sum funded_db ''A'' - 30"
    "ledger_consistent funded_db ''A'' \<longrightarrow> \<not> ledger_consistent d' ''A''"
    by blast
  with bal sum ok have
    "wallet_deduct 1700000060000 ''A'' (js_num 30) JNull JNull funded_db [False, True]
       = (Deducted (Some 70) (Some t), d')
     \<and> balance_of d' ''A'' = 100 \<and> ledger_sum d' ''A'' = 70 \<and> \<not> ledger_consistent d' ''A''"
    by simp
  with w ok show ?thesis by blast
qed

text \<open>The same divergence without any storage failure: the JSON value \<^verbatim>\<open>true\<close> passes the
  guard of the deduct route (\<^verbatim>\<open>Number(true)\<close> is 1) and \<^verbatim>\<open>parseFloat(true)\<close> is \<^verbatim>\<open>NaN\<close>, so the
  balance is stored as \<^verbatim>\<open>NULL\<close> and the ledger row, whose amount would be \<^verbatim>\<open>null\<close>, is refused
  by the table.\<close>

lemma deduct_true_wipes_balance:
  "wallet_deduct 1700000060000 ''A'' \<lparr>truthy = True, to_number = Some 1, parse_float = None\<rparr>
     JNull JNull funded_db []
   = (Deducted None None, funded_db\<lparr>wallets := [''A'' \<mapsto> None]\<rparr>)"
  by (simp add: funded_db_eq wallet_deduct_def getUserBalance_def getOrCreateWallet_def
      updateUserBalance_def addTransaction_def Let_def empty_db_def)

section \<open>Approving a top-up request\<close>

text \<open>
  What holds when the storage answers every call: a request that is not pending is refused;
  approving a pending request marks it approved with reviewer and time, adds its amount to
  the balance of its account and to the ledger, and any further approval of it is refused.
\<close>

lemma approve_topup_not_pending:
  assumes "filter (\<lambda>r. request_id r = requestId \<and> req_status r = ''pending'') (topup_requests d) = []"
  shows "approve_topup now requestId adminId nt bodyAmount d fs = (NotPending, d)"
  using assms by (simp add: approve_topup_def Let_def split: prod.splits)

lemma no_pending_after_approve_row:
  "filter (\<lambda>r. request_id r = requestId \<and> req_status r = ''pending'')
     (map (approve_row requestId adminId a nt now) rs) = []"
  by (induction rs) (auto simp: approve_row_def)

lemma approve_twice_credits_once:
  assumes req: "filter (\<lambda>r. request_id r = requestId \<and> req_status r = ''pending'') (topup_requests d) = [request]"
    and a: "0 < req_amount request"
    and fresh: "''TXN'' @ show_nat now \<notin> set (map transaction_id (transactions d))"
  shows "\<exists>t d'. approve_topup now requestId adminId nt js_undefined d []
                   = (Approved (balance_of d (req_user_id request) + req_amount request), d')
              \<and> topup_requests d' = map (approve_row requestId adminId (req_amount request) nt now) (topup_requests d)
              \<and> balance_of d' (req_user_id request) = balance_of d (req_user_id request) + req_amount request
              \<and> transactions d' = transactions d @ [t]
              \<and> txn_user_id t = req_user_id request \<and> txn_amount t = req_amount request
              \<and> (\<forall>now2 body fs. approve_topup now2 requestId adminId nt body d' fs = (NotPending, d'))"
proof -
  let ?u = "req_user_id request"
  let ?a = "req_amount request"
  let ?d1 = "d\<lparr>topup_requests := map (approve_row requestId adminId ?a nt now) (topup_requests d)\<rparr>"
  obtain resp d' where run: "approve_topup now requestId adminId nt js_undefined d [] = (resp, d')"
    by (cases "approve_topup now requestId adminId nt js_undefined d []") auto
  have run1: "(resp, d') = credit_request now requestId adminId nt request ?a ?d1 []"
    using run req a by (simp add: approve_topup_def js_undefined_def Let_def)
  have fresh1: "''TXN'' @ show_nat now \<notin> set (map transaction_id (transactions ?d1))"
    using fresh by simp
  let ?t = "\<lparr>transaction_id = ''TXN'' @ show_nat now, txn_user_id = ?u, txn_type = ''topup'',
             txn_amount = ?a, txn_balance_after = balance_of d ?u + ?a,
             txn_details = [(''method'', JStr (req_method request)), (''requestId'', JStr requestId),
                            (''approvedBy'', JStr adminId),
                            (''note'', JStr (if nt = [] then default_txn_note else nt))]\<rparr>"
  from run1 fresh have res: "resp = Approved (balance_of d ?u + ?a)"
    and tx: "transactions d' = transactions d @ [?t]"
    and rq: "topup_requests d' = map (approve_row requestId adminId ?a nt now) (topup_requests d)"
    and bal: "balance_of d' ?u = balance_of d ?u + ?a"
    by (simp_all add: credit_request_def getOrCreateWallet_nofault getUserBalance_nofault
        updateUserBalance_nofault addTransaction_nofault Let_def)
  have again: "approve_topup now2 requestId adminId nt body d' fs = (NotPending, d')" for now2 body fs
    by (rule approve_topup_not_pending) (simp add: rq no_pending_after_approve_row)
  from run res tx rq bal again show ?thesis by auto
qed

text \<open>
  C6 does not hold on the code: the status update and the credit are separate storage calls
  outside any transaction. Take a pending request of a positive amount for an account with
  balance \<open>b\<close>, and let the wallet upsert and the ledger insert fail (the fifth and seventh
  storage calls of the request): the route answers that the amount was credited, the request
  is approved, the balance is still \<open>b\<close> and the ledger has no new row. Every later approval
  of the request is refused as not pending, so the credit is never made.
\<close>

theorem approval_survives_failed_credit:
  assumes req: "filter (\<lambda>r. request_id r = requestId \<and> req_status r = ''pending'') (topup_requests d) = [request]"
    and a: "0 < req_amount request"
    and wallet: "wallets d (req_user_id request) = Some (Some b)"
  shows "\<exists>d'. approve_topup now requestId adminId nt js_undefined d
                 [False, False, False, False, True, False, True]
               = (Approved (b + req_amount request), d')
            \<and> topup_requests d' = map (approve_row requestId adminId (req_amount request) nt now) (topup_requests d)
            \<and> filter (\<lambda>r. request_id r = requestId \<and> req_status r = ''pending'') (topup_requests d') = []
            \<and> wallets d' = wallets d
            \<and> transactions d' = transactions d
            \<and> balance_of d' (req_user_id request) = b
            \<and> (\<forall>now2 body fs. approve_topup now2 requestId adminId nt body d' fs = (NotPending, d'))"
proof -
  let ?a = "req_amount request"
  let ?d' = "d\<lparr>topup_requests := map (approve_row requestId adminId ?a nt now) (topup_requests d)\<rparr>"
  have run: "approve_topup now requestId adminId nt js_undefined d
               [False, False, False, False, True, False, True] = (Approved (b + ?a), ?d')"
    using req a wallet
    by (simp add: approve_topup_def credit_request_def js_undefined_def getUserBalance_def
        getOrCreateWallet_def updateUserBalance_def addTransaction_def Let_def)
  have none: "filter (\<lambda>r. request_id r = requestId \<and> req_status r = ''pending'') (topup_requests ?d') = []"
    by (simp add: no_pending_after_approve_row)
  have again: "approve_topup now2 requestId adminId nt body ?d' fs = (NotPending, ?d')" for now2 body fs
    by (rule approve_topup_not_pending) (rule none)
  have bal: "balance_of ?d' (req_user_id request) = b"
    using wallet by (simp add: balance_of_def wallet_balance_def)
  from run none again bal show ?thesis by auto
qed

theorem approval_survives_failed_credit_witness:
  "wallets pending_db ''A'' = Some (Some 20)
   \<and> map req_status (topup_requests pending_db) = [''pending'']
   \<and> (\<exists>d'. approve_topup 1700000000000 ''REQ1'' ''admin'' [] js_undefined pending_db
                [False, False, False, False, True, False, True]
              = (Approved 120, d')
          \<and> map req_status (topup_requests d') = [''approved'']
          \<and> balance_of d' ''A'' = 20
          \<and> transactions d' = []
          \<and> approve_topup 1700000060000 ''REQ1'' ''admin'' [] js_undefined d' [] = (NotPending, d'))"
proof -
  let ?request = "\<lparr>request_id = ''REQ1'', req_user_id = ''A'', req_amount = 100,
                  req_method = ''promptpay'', req_slip_url = None, req_status = ''pending'',
                  req_admin_note = None, req_reviewed_by = None, req_reviewed_at = None\<rparr>"
  have req: "filter (\<lambda>r. request_id r = ''REQ1'' \<and> req_status r = ''pending'') (topup_requests pending_db)
               = [?request]"
    by (simp add: pending_db_def empty_db_def)
  have a: "0 < req_amount ?request" by simp
  have w: "wallets pending_db (req_user_id ?request) = Some (Some 20)"
    by (simp add: pending_db_def empty_db_def)
  have st: "map req_status (topup_requests pending_db) = [''pending'']"
    by (simp add: pending_db_def empty_db_def)
  have tx: "transactions pending_db = []" by (simp add: pending_db_def empty_db_def)
  from approval_survives_failed_credit [OF req a w, of 1700000000000 "''admin''" "[]"]
  obtain d' where
    run: "approve_topup 1700000000000 ''REQ1'' ''admin'' [] js_undefined pending_db
            [False, False, False, False, True, False, True] = (Approved (20 + 100), d')"
    and rq: "topup_requests d' = map (approve_row ''REQ1'' ''admin'' 100 [] 1700000000000) (topup_requests pending_db)"
    and t: "transactions d' = transactions pending_db"
    and bal: "balance_of d' ''A'' = 20"
    and again: "\<forall>now2 body fs. approve_topup now2 ''REQ1'' ''admin'' [] body d' fs = (NotPending, d')"
    by auto
  from rq have "map req_status (topup_requests d') = [''approved'']"
    by (simp add: pending_db_def empty_db_def approve_row_def)
  with run t tx bal again w st show ?thesis by auto
qed

end
